theory Spec2Isabelle
  imports Complex_Main "HOL-Library.Multiset" "HOL-Library.Option_ord"
begin

section \<open>Framework objects shared by the models\<close>

text \<open>
  Exceptions of the host framework and of the language that the modelled code can raise.
\<close>

datatype error =
    ObjectDoesNotExist
  | MultipleObjectsReturned
  | ValueError
  | AssertionError
  | TypeError
  | AttributeError
  | TemplateSyntaxError
  | DatabaseError
  | OverflowError
  | ZeroDivisionError

text \<open>
  Every model instance carries the primary key \<open>id\<close>; it is \<open>None\<close> until the
  instance has been stored. A table is the list of its stored rows.
\<close>

record model =
  id_pk :: "nat option"

definition table_ok :: "'a model_scheme list \<Rightarrow> bool" where
  "table_ok objects = (None \<notin> set (map id_pk objects) \<and> distinct (map id_pk objects))"

definition next_id :: "'a model_scheme list \<Rightarrow> nat" where
  "next_id objects = Suc (fold max (map (\<lambda>r. case id_pk r of None \<Rightarrow> 0 | Some k \<Rightarrow> k) objects) 0)"

text \<open>
  \<open>models.Model.save\<close>: an instance whose key names a stored row replaces that row, any
  other instance is inserted, under a fresh key when it has none. The instance is
  returned with its key set.
\<close>

definition Model_save ::
  "'a model_scheme \<Rightarrow> 'a model_scheme list \<Rightarrow> 'a model_scheme \<times> 'a model_scheme list" where
  "Model_save self objects =
     (case id_pk self of
        None \<Rightarrow> (let self = self\<lparr>id_pk := Some (next_id objects)\<rparr> in (self, objects @ [self]))
      | Some k \<Rightarrow>
          if Some k \<in> set (map id_pk objects)
          then (self, map (\<lambda>r. if id_pk r = Some k then self else r) objects)
          else (self, objects @ [self]))"

text \<open>
  Modelled from the spec: the manager classes (\<open>mezzanine.core.managers\<close>) are not among
  the sources. The claims read \<open>concrete_model.objects.all()\<close> as every row of the
  concrete model, which is what the framework's default manager returns, and so does
  \<open>objects_all\<close>. \<open>exclude(id=k)\<close> drops the row with that key.
\<close>

definition objects_all :: "'a model_scheme list \<Rightarrow> 'a model_scheme list" where
  "objects_all objects = objects"

definition exclude_id :: "nat \<Rightarrow> 'a model_scheme list \<Rightarrow> 'a model_scheme list" where
  "exclude_id k qs = filter (\<lambda>r. id_pk r \<noteq> Some k) qs"

section \<open>Slugged\<close>

record slugged = model +
  title :: string
  slug :: "string option"

text \<open>\<open>Displayable\<close> adds the site the row belongs to.\<close>

record displayable = slugged +
  site :: nat

text \<open>\<open>not self.slug\<close>: the field is empty when it is \<open>None\<close> or the empty string.\<close>

definition slug_empty :: "string option \<Rightarrow> bool" where
  "slug_empty s = (case s of None \<Rightarrow> True | Some t \<Rightarrow> t = [])"

text \<open>\<open>qs.get(slug=s)\<close>: the single matching row, or one of two exceptions.\<close>

definition get_by_slug :: "'a slugged_scheme list \<Rightarrow> string \<Rightarrow> error + 'a slugged_scheme" where
  "get_by_slug qs s =
     (case filter (\<lambda>r. slug r = Some s) qs of
        [] \<Rightarrow> Inl ObjectDoesNotExist
      | [r] \<Rightarrow> Inr r
      | _ \<Rightarrow> Inl MultipleObjectsReturned)"

text \<open>\<open>s.rsplit(c, 1)[0]\<close>: what precedes the last occurrence of \<open>c\<close>, all of \<open>s\<close> without one.\<close>

fun rsplit_head :: "char \<Rightarrow> string \<Rightarrow> string" where
  "rsplit_head c [] = []"
| "rsplit_head c (x # xs) =
     (if c \<in> set xs then x # rsplit_head c xs else if x = c then [] else x # xs)"

text \<open>\<open>"%s" % i\<close> for a non-negative integer: its decimal digits.\<close>

definition digit_char :: "nat \<Rightarrow> char" where
  "digit_char d = ''0123456789'' ! d"

function str_nat :: "nat \<Rightarrow> string" where
  "str_nat n = (if n < 10 then [digit_char n] else str_nat (n div 10) @ [digit_char (n mod 10)])"
  by pat_completeness auto
termination
  by (relation "measure id") auto

declare str_nat.simps [simp del]

text \<open>\<open>get_slug\<close>; \<open>slugify\<close> lives in \<open>mezzanine.utils.urls\<close> and is a parameter here.\<close>

definition get_slug :: "(string \<Rightarrow> string) \<Rightarrow> 'a slugged_scheme \<Rightarrow> string" where
  "get_slug slugify self = slugify (title self)"

text \<open>
  The \<open>while True\<close> loop of \<open>Slugged.save\<close>, entered with the current \<open>self.slug\<close> and
  \<open>i\<close>. It returns the slug it breaks with, or the exception \<open>qs.get\<close> lets through.
\<close>

definition loop_slug :: "string \<Rightarrow> nat \<Rightarrow> string" where
  "loop_slug s i =
     (if i > 0 then (if i > 1 then rsplit_head CHR ''-'' s else s) @ ''-'' @ str_nat i else s)"

partial_function (option) slug_loop ::
  "'a slugged_scheme list \<Rightarrow> nat option \<Rightarrow> string \<Rightarrow> nat \<Rightarrow> (error + string) option" where
  "slug_loop objects self_id s i =
     (let s = loop_slug s i;
          qs = objects_all objects;
          qs = (case self_id of None \<Rightarrow> qs | Some k \<Rightarrow> exclude_id k qs)
      in case get_by_slug qs s of
           Inl e \<Rightarrow> if e = ObjectDoesNotExist then Some (Inr s) else Some (Inl e)
         | Inr _ \<Rightarrow> slug_loop objects self_id s (i + 1))"

definition Slugged_save ::
  "(string \<Rightarrow> string) \<Rightarrow> 'a slugged_scheme \<Rightarrow> 'a slugged_scheme list
     \<Rightarrow> (error + 'a slugged_scheme \<times> 'a slugged_scheme list) option" where
  "Slugged_save slugify self objects =
     (if slug_empty (slug self) then
        (case slug_loop objects (id_pk self) (get_slug slugify self) 0 of
           None \<Rightarrow> None
         | Some (Inl e) \<Rightarrow> Some (Inl e)
         | Some (Inr s) \<Rightarrow> Some (Inr (Model_save (self\<lparr>slug := Some s\<rparr>) objects)))
      else Some (Inr (Model_save self objects)))"

section \<open>Orderable\<close>

record orderable = model +
  order_f :: "int option"

text \<open>
  \<open>_order\<close> is an \<open>IntegerField\<close>: a nullable integer column. The framework documents the
  values from \<open>-2147483648\<close> to \<open>2147483647\<close> as safe on every database it supports; a
  write of a value outside them is refused by the database.
\<close>

definition integer_min :: int where
  "integer_min = - 2147483648"

definition integer_max :: int where
  "integer_max = 2147483647"

definition integer_ok :: "int option \<Rightarrow> bool" where
  "integer_ok v = (case v of None \<Rightarrow> True | Some n \<Rightarrow> integer_min \<le> n \<and> n \<le> integer_max)"

text \<open>
  A lookup dict as passed to \<open>objects.filter(**lookup)\<close>: the entry
  \<open>{field: value}\<close> of \<open>with_respect_to\<close> (the field is given by its accessor) and the
  entry \<open>{"_order__gte": value}\<close> that \<open>delete\<close> adds.
\<close>

datatype ('r, 'v) lookup_entry =
    FieldExact "'r \<Rightarrow> 'v" 'v
  | OrderGte "int option"

text \<open>
  The framework refuses \<open>None\<close> as the value of any lookup but an exact match, with a
  \<open>ValueError\<close>; an exact match against \<open>None\<close> selects the rows whose field is null.
\<close>

fun entry_refused :: "('r, 'v) lookup_entry \<Rightarrow> bool" where
  "entry_refused (FieldExact f v) = False"
| "entry_refused (OrderGte None) = True"
| "entry_refused (OrderGte (Some k)) = False"

fun entry_matches :: "('a orderable_scheme, 'v) lookup_entry \<Rightarrow> 'a orderable_scheme \<Rightarrow> bool" where
  "entry_matches (FieldExact f v) r = (f r = v)"
| "entry_matches (OrderGte None) r = False"
| "entry_matches (OrderGte (Some k)) r = (case order_f r of None \<Rightarrow> False | Some n \<Rightarrow> k \<le> n)"

definition lookup_matches ::
  "('a orderable_scheme, 'v) lookup_entry list \<Rightarrow> 'a orderable_scheme \<Rightarrow> bool" where
  "lookup_matches lookup r = list_all (\<lambda>e. entry_matches e r) lookup"

definition objects_filter ::
  "('a orderable_scheme, 'v) lookup_entry list \<Rightarrow> 'a orderable_scheme list
     \<Rightarrow> error + 'a orderable_scheme list" where
  "objects_filter lookup objects =
     (if list_ex entry_refused lookup then Inl ValueError
      else Inr (filter (lookup_matches lookup) (objects_all objects)))"

text \<open>
  \<open>with_respect_to\<close>. The class attribute \<open>order_with_respect_to\<close> is \<open>None\<close> when the
  model's \<open>Meta\<close> names no field (the \<open>AttributeError\<close> branch), and the accessor of the
  named field otherwise.
\<close>

definition with_respect_to ::
  "('a orderable_scheme \<Rightarrow> 'v) option \<Rightarrow> 'a orderable_scheme
     \<Rightarrow> ('a orderable_scheme, 'v) lookup_entry list" where
  "with_respect_to order_with_respect_to self =
     (case order_with_respect_to of
        None \<Rightarrow> []
      | Some field \<Rightarrow> [FieldExact field (field self)])"

text \<open>
  \<open>super(Orderable, self).save()\<close>: \<open>models.Model.save\<close> on a table with the \<open>_order\<close>
  column. It returns the exception raised, if any, the instance and the table.
\<close>

definition Orderable_super_save ::
  "'a orderable_scheme \<Rightarrow> 'a orderable_scheme list
     \<Rightarrow> error option \<times> 'a orderable_scheme \<times> 'a orderable_scheme list" where
  "Orderable_super_save self objects =
     (if integer_ok (order_f self)
      then (case Model_save self objects of (self', objects') \<Rightarrow> (None, self', objects'))
      else (Some DatabaseError, self, objects))"

text \<open>
  \<open>Orderable.save\<close>. The attribute \<open>_order\<close> of the instance is set before the row is
  written, so the instance returned has it also when the write is refused.
\<close>

definition Orderable_save ::
  "('a orderable_scheme \<Rightarrow> 'v) option \<Rightarrow> 'a orderable_scheme \<Rightarrow> 'a orderable_scheme list
     \<Rightarrow> error option \<times> 'a orderable_scheme \<times> 'a orderable_scheme list" where
  "Orderable_save order_with_respect_to self objects =
     (if order_f self = None then
        (let lookup = with_respect_to order_with_respect_to self
         in case objects_filter lookup objects of
              Inl e \<Rightarrow> (Some e, self, objects)
            | Inr qs \<Rightarrow> Orderable_super_save (self\<lparr>order_f := Some (int (length qs))\<rparr>) objects)
      else Orderable_super_save self objects)"

text \<open>
  \<open>after.update(_order=F("_order") - 1)\<close>: one statement, computed by the database on
  the rows the lookup selects. If the new value of a selected row leaves the range of
  the column, the statement fails and no row is changed.
\<close>

definition update_order_minus_1 ::
  "('a orderable_scheme, 'v) lookup_entry list \<Rightarrow> 'a orderable_scheme list
     \<Rightarrow> error + 'a orderable_scheme list" where
  "update_order_minus_1 lookup objects =
     (if list_ex (\<lambda>r. lookup_matches lookup r \<and>
                       \<not> integer_ok (map_option (\<lambda>n. n - 1) (order_f r))) objects
      then Inl DatabaseError
      else Inr (map (\<lambda>r. if lookup_matches lookup r
                         then r\<lparr>order_f := map_option (\<lambda>n. n - 1) (order_f r)\<rparr> else r) objects))"

text \<open>
  \<open>models.Model.delete\<close>. It asserts that the instance has a key, collects the rows to
  delete and removes them. Besides the row of the instance these are the rows that
  reference it through a foreign key, and the rows that reference those, and so on:
  for a model that refers to itself (the \<open>ForeignKey("self")\<close> of a page's parent) they
  are in the same table. The foreign keys of the model to itself are given by their
  accessors; rows of other models that reference the instance are in other tables.

  \<open>referrers\<close> are the keys, not collected yet, of the rows that reference a collected
  key; \<open>collect_related\<close> repeats the step until it adds nothing, which happens within
  as many rounds as the table has rows.
\<close>

definition referrers ::
  "('a model_scheme \<Rightarrow> nat option) list \<Rightarrow> 'a model_scheme list \<Rightarrow> nat list \<Rightarrow> nat list" where
  "referrers fks objects ids =
     concat (map
       (\<lambda>r. case id_pk r of
               None \<Rightarrow> []
             | Some i \<Rightarrow>
                 if i \<notin> set ids \<and>
                    list_ex (\<lambda>fk. case fk r of None \<Rightarrow> False | Some j \<Rightarrow> j \<in> set ids) fks
                 then [i] else [])
       objects)"

fun collect_related ::
  "nat \<Rightarrow> ('a model_scheme \<Rightarrow> nat option) list \<Rightarrow> 'a model_scheme list \<Rightarrow> nat list \<Rightarrow> nat list" where
  "collect_related 0 fks objects ids = ids"
| "collect_related (Suc n) fks objects ids =
     (case referrers fks objects ids of
        [] \<Rightarrow> ids
      | new \<Rightarrow> collect_related n fks objects (ids @ new))"

definition Model_delete ::
  "('a model_scheme \<Rightarrow> nat option) list \<Rightarrow> 'a model_scheme \<Rightarrow> 'a model_scheme list
     \<Rightarrow> error option \<times> 'a model_scheme list" where
  "Model_delete fks self objects =
     (case id_pk self of
        None \<Rightarrow> (Some AssertionError, objects)
      | Some k \<Rightarrow>
          (let collected = collect_related (length objects) fks objects [k]
           in (None, filter (\<lambda>r. case id_pk r of
                                   None \<Rightarrow> True
                                 | Some i \<Rightarrow> i \<notin> set collected) objects)))"

text \<open>
  \<open>Orderable.delete\<close> returns the exception raised, if any, and the table as the call
  leaves it: an exception of \<open>Model.delete\<close> comes after the update has been made.
\<close>

definition Orderable_delete ::
  "('a orderable_scheme \<Rightarrow> 'v) option \<Rightarrow> ('a orderable_scheme \<Rightarrow> nat option) list
     \<Rightarrow> 'a orderable_scheme \<Rightarrow> 'a orderable_scheme list
     \<Rightarrow> error option \<times> 'a orderable_scheme list" where
  "Orderable_delete order_with_respect_to fks self objects =
     (let lookup = with_respect_to order_with_respect_to self @ [OrderGte (order_f self)]
      in case objects_filter lookup objects of
           Inl e \<Rightarrow> (Some e, objects)
         | Inr after \<Rightarrow>
             (case update_order_minus_1 lookup objects of
                Inl e \<Rightarrow> (Some e, objects)
              | Inr objects' \<Rightarrow> Model_delete fks self objects'))"

section \<open>Generic relation fields\<close>

text \<open>
  A Python float is an IEEE double. \<open>round_double\<close> takes a real number to the nearest
  double, the one with the even significand when two are equally near: the significand
  is an integer of at most 53 bits and the exponent is that of the number, not below the
  exponent of the subnormal doubles. \<open>double_max\<close> is the largest double.
\<close>

definition round_half_even :: "real \<Rightarrow> int" where
  "round_half_even x =
     (let f = \<lfloor>x\<rfloor>
      in if x - of_int f < 1 / 2 then f
         else if 1 / 2 < x - of_int f then f + 1
         else if even f then f else f + 1)"

definition double_exponent :: "real \<Rightarrow> int" where
  "double_exponent x = max (\<lfloor>log 2 \<bar>x\<bar>\<rfloor> - 52) (- 1074)"

definition round_double :: "real \<Rightarrow> real" where
  "round_double x =
     (if x = 0 then 0
      else of_int (round_half_even (x / 2 powr of_int (double_exponent x))) *
           2 powr of_int (double_exponent x))"

definition double_max :: real where
  "double_max = (2 ^ 53 - 1) * 2 ^ 971"

text \<open>
  Attribute values of an instance: an integer, a string, a finite float by its value,
  or an infinite float by its sign.
\<close>

datatype val = IntV int | StrV string | FloatV real | InfV bool

text \<open>
  \<open>float(n)\<close>, also the conversion of the integer operand of a division by a float: the
  nearest double, or \<open>OverflowError\<close> for an integer beyond the doubles. \<open>x / y\<close> on
  floats: \<open>ZeroDivisionError\<close> for a zero divisor, otherwise the nearest double to the
  quotient, infinite when that is beyond the largest double.
\<close>

definition float_of_int :: "int \<Rightarrow> error + real" where
  "float_of_int n =
     (let x = round_double (of_int n)
      in if double_max < \<bar>x\<bar> then Inl OverflowError else Inr x)"

definition float_div :: "real \<Rightarrow> real \<Rightarrow> error + val" where
  "float_div x y =
     (if y = 0 then Inl ZeroDivisionError
      else (let q = round_double (x / y)
            in if double_max < \<bar>q\<bar> then Inr (InfV (0 < q)) else Inr (FloatV q)))"

type_synonym class_name = string

text \<open>
  The instance a generic relation field is declared on: its class, and its attributes by
  name, since the handlers address the denormalised fields through computed names.
\<close>

record generic_obj = model +
  obj_cls :: class_name
  attrs :: "string \<rightharpoonup> val"

text \<open>
  Modelled from the spec: \<open>mezzanine.generic.models\<close> is not among the sources. A row of a
  side table (\<open>ThreadedComment\<close>, \<open>AssignedKeyword\<close>, \<open>Rating\<close>) has its class, the
  type and id pair of the object it is attached to (\<open>content_type.model_class()\<close>, which
  is \<open>None\<close> for a content type whose model is gone, and \<open>object_pk\<close>), the \<open>value\<close> of a
  rating and the \<open>unicode\<close> of an assigned keyword.
\<close>

record related_item = model +
  cls :: class_name
  content_type :: "class_name option"
  object_pk :: nat
  rating_value :: int
  keyword :: string

text \<open>
  The related manager handed to a handler: the rows it iterates over, in its order, and
  its \<open>count_queryset\<close> method where the manager class defines one.
\<close>

record related_manager =
  rel_items :: "related_item list"
  count_queryset :: "(related_item list \<Rightarrow> int) option"

datatype db_op = OpGet nat | OpSave "nat option"

text \<open>
  The database the handlers work on: the table of the model the field is declared on,
  the side table rows, and the log of the queries made, by which a handler that writes
  the same row again differs from one that does not write.
\<close>

record db =
  db_objects :: "generic_obj list"
  db_items :: "related_item list"
  db_log :: "db_op list"

datatype field_class = BaseGenericRelation | CommentsField | KeywordsField | RatingField

record field =
  field_cls :: field_class
  rel_to :: class_name
  field_model :: class_name
  related_field_name :: string

text \<open>\<open>fmt % name\<close> for a format with one \<open>%s\<close>, and \<open>sep.join(xs)\<close>.\<close>

fun format_s :: "string \<Rightarrow> string \<Rightarrow> string" where
  "format_s [] a = []"
| "format_s [c] a = [c]"
| "format_s (c # d # rest) a =
     (if c = CHR ''%'' \<and> d = CHR ''s'' then a @ rest else c # format_s (d # rest) a)"

fun join :: "string \<Rightarrow> string list \<Rightarrow> string" where
  "join sep [] = []"
| "join sep [x] = x"
| "join sep (x # y # ys) = x @ sep @ join sep (y # ys)"

definition setattr :: "generic_obj \<Rightarrow> string \<Rightarrow> val \<Rightarrow> generic_obj" where
  "setattr inst name v = inst\<lparr>attrs := (attrs inst)(name \<mapsto> v)\<rparr>"

text \<open>
  \<open>instance.save()\<close>, as \<open>models.Model.save\<close> on the instance's table. What a \<open>save\<close>
  override of the instance's class adds is not part of the handlers.
\<close>

definition instance_save :: "generic_obj \<Rightarrow> db \<Rightarrow> generic_obj \<times> db" where
  "instance_save inst d =
     (case Model_save inst (db_objects d) of
        (inst', objects') \<Rightarrow>
          (inst', d\<lparr>db_objects := objects', db_log := db_log d @ [OpSave (id_pk inst)]\<rparr>))"

text \<open>The \<open>fields\<close> dicts of the three field classes, as the lists of their keys.\<close>

definition CommentsField_fields :: "string list" where
  "CommentsField_fields = [''%s_count'']"

definition KeywordsField_fields :: "string list" where
  "KeywordsField_fields = [''%s_string'']"

text \<open>\<open>CommentsField.related_items_changed\<close>\<close>

definition CommentsField_related_items_changed ::
  "field \<Rightarrow> generic_obj \<Rightarrow> related_manager \<Rightarrow> db \<Rightarrow> error + generic_obj \<times> db" where
  "CommentsField_related_items_changed self inst manager d =
     (let count = (case count_queryset manager of
                     Some count_queryset_method \<Rightarrow> count_queryset_method (rel_items manager)
                   | None \<Rightarrow> int (length (rel_items manager)));
          count_field_name = format_s (hd CommentsField_fields) (related_field_name self);
          inst = setattr inst count_field_name (IntV count)
      in Inr (instance_save inst d))"

text \<open>\<open>KeywordsField.related_items_changed\<close>\<close>

definition KeywordsField_related_items_changed ::
  "field \<Rightarrow> generic_obj \<Rightarrow> related_manager \<Rightarrow> db \<Rightarrow> error + generic_obj \<times> db" where
  "KeywordsField_related_items_changed self inst manager d =
     (let assigned = rel_items manager;
          keywords = join '' '' (map keyword assigned);
          string_field_name = format_s (hd KeywordsField_fields) (related_field_name self)
      in case attrs inst string_field_name of
           None \<Rightarrow> Inl AttributeError
         | Some current \<Rightarrow>
             if current \<noteq> StrV keywords
             then Inr (instance_save (setattr inst string_field_name (StrV keywords)) d)
             else Inr (inst, d))"

text \<open>
  \<open>RatingField.related_items_changed\<close>. The average is the expression
  \<open>sum(ratings) / float(count) if count > 0 else 0\<close>: with ratings, a float division of
  the sum by the count, each converted to a float; without, the integer \<open>0\<close>.
\<close>

definition RatingField_average :: "int list \<Rightarrow> error + val" where
  "RatingField_average ratings =
     (let count = length ratings
      in if count > 0 then
           (case float_of_int (int count) of
              Inl e \<Rightarrow> Inl e
            | Inr divisor \<Rightarrow>
                (case float_of_int (sum_list ratings) of
                   Inl e \<Rightarrow> Inl e
                 | Inr dividend \<Rightarrow> float_div dividend divisor))
         else Inr (IntV 0))"

definition RatingField_related_items_changed ::
  "field \<Rightarrow> generic_obj \<Rightarrow> related_manager \<Rightarrow> db \<Rightarrow> error + generic_obj \<times> db" where
  "RatingField_related_items_changed self inst manager d =
     (let ratings = map rating_value (rel_items manager);
          count = length ratings
      in case RatingField_average ratings of
           Inl e \<Rightarrow> Inl e
         | Inr average \<Rightarrow>
             (let inst = setattr inst (format_s ''%s_count'' (related_field_name self))
                           (IntV (int count));
                  inst = setattr inst (format_s ''%s_average'' (related_field_name self)) average
              in Inr (instance_save inst d)))"

text \<open>The method \<open>related_items_changed\<close> as the field's class resolves it.\<close>

definition related_items_changed ::
  "field \<Rightarrow> generic_obj \<Rightarrow> related_manager \<Rightarrow> db \<Rightarrow> error + generic_obj \<times> db" where
  "related_items_changed self inst manager d =
     (case field_cls self of
        BaseGenericRelation \<Rightarrow> Inr (inst, d)
      | CommentsField \<Rightarrow> CommentsField_related_items_changed self inst manager d
      | KeywordsField \<Rightarrow> KeywordsField_related_items_changed self inst manager d
      | RatingField \<Rightarrow> RatingField_related_items_changed self inst manager d)"

text \<open>
  Classes are known by their resolution order: \<open>mro c\<close> lists \<open>c\<close> and the classes it
  inherits from.
\<close>

definition issubclass :: "(class_name \<Rightarrow> class_name list) \<Rightarrow> class_name \<Rightarrow> class_name \<Rightarrow> bool" where
  "issubclass mro c base = (base \<in> set (mro c))"

text \<open>\<open>self.model.objects.get(id=k)\<close>\<close>

definition get_by_id :: "'a model_scheme list \<Rightarrow> nat \<Rightarrow> error + 'a model_scheme" where
  "get_by_id qs k =
     (case filter (\<lambda>r. id_pk r = Some k) qs of
        [] \<Rightarrow> Inl ObjectDoesNotExist
      | [r] \<Rightarrow> Inr r
      | _ \<Rightarrow> Inl MultipleObjectsReturned)"

text \<open>
  What the framework supplies to the signal handler: the class hierarchy, the
  \<open>get_content_model\<close> method of the fetched instance where its class has one, and the
  related manager \<open>getattr(instance, self.related_field_name)\<close>, which yields the rows
  of the related model attached to the instance by type and id.
\<close>

record framework =
  mro :: "class_name \<Rightarrow> class_name list"
  get_content_model :: "(generic_obj \<Rightarrow> generic_obj) option"
  manager_count_queryset :: "(related_item list \<Rightarrow> int) option"

definition related_manager_of :: "framework \<Rightarrow> field \<Rightarrow> generic_obj \<Rightarrow> db \<Rightarrow> related_manager" where
  "related_manager_of fw self inst d =
     \<lparr>rel_items = filter (\<lambda>r. issubclass (mro fw) (cls r) (rel_to self) \<and>
                              content_type r = Some (obj_cls inst) \<and>
                              Some (object_pk r) = id_pk inst) (db_items d),
      count_queryset = manager_count_queryset fw\<rparr>"

text \<open>
  \<open>BaseGenericRelation._related_items_changed\<close>, called with the instance of every
  save and delete signal. It returns the exception raised, if any, and the database.
\<close>

definition signal_related_items_changed ::
  "framework \<Rightarrow> field \<Rightarrow> related_item \<Rightarrow> db \<Rightarrow> error option \<times> db" where
  "signal_related_items_changed fw self kwargs_instance d =
     (if \<not> issubclass (mro fw) (cls kwargs_instance) (rel_to self) then (None, d)
      else case content_type kwargs_instance of
             None \<Rightarrow> (Some TypeError, d)
           | Some for_model \<Rightarrow>
               if issubclass (mro fw) for_model (field_model self) then
                 (let d = d\<lparr>db_log := db_log d @ [OpGet (object_pk kwargs_instance)]\<rparr>
                  in case get_by_id (db_objects d) (object_pk kwargs_instance) of
                       Inl e \<Rightarrow> (Some e, d)
                     | Inr inst \<Rightarrow>
                         (let inst = (case get_content_model fw of
                                        Some method \<Rightarrow> method inst
                                      | None \<Rightarrow> inst);
                              related_manager = related_manager_of fw self inst d
                          in case related_items_changed self inst related_manager d of
                               Inl e \<Rightarrow> (Some e, d)
                             | Inr (inst', d') \<Rightarrow> (None, d')))
               else (None, d))"

section \<open>The page menu\<close>

text \<open>
  Modelled from the spec: \<open>mezzanine.pages.models\<close> is not among the sources. Of a
  \<open>Page\<close> the tag reads \<open>id\<close>, \<open>parent_id\<close> and \<open>_order\<close>, and it sets the attribute
  \<open>branch_level\<close>, absent (\<open>None\<close>) on a page no menu has rendered. \<open>set_menu_helpers\<close>
  is a method of \<open>Page\<close>; the model records the slug it is called with.
\<close>

record page = orderable +
  parent_id :: "nat option"
  branch_level :: "int option"
  menu_helpers :: "string option"

definition set_menu_helpers :: "string \<Rightarrow> page \<Rightarrow> page" where
  "set_menu_helpers current_slug p = p\<lparr>menu_helpers := Some current_slug\<rparr>"

text \<open>
  The template context, with the variables the tag reads and writes. A variable that is
  not in the context is \<open>None\<close>. The request is its user and its path.
\<close>

record 'u template_context =
  menu_template_name :: "string option"
  menu_pages :: "(nat option \<rightharpoonup> page list) option"
  request :: "('u \<times> string) option"
  on_home :: "bool option"
  ctx_branch_level :: "int option"
  page_branch :: "page list option"

text \<open>
  What the tag takes from outside: the \<open>Page\<close> table, the manager's
  \<open>published(for_user=user)\<close> as a predicate on rows, and \<open>reverse("home")\<close>.
\<close>

record 'u site_env =
  all_pages :: "page list"
  published :: "'u option \<Rightarrow> page \<Rightarrow> bool"
  home_url :: string

text \<open>An argument of the tag after \<open>Variable(part).resolve(context)\<close>.\<close>

datatype part = UnicodePart string | PagePart page | OtherPart

fun resolve_parts :: "part list \<Rightarrow> string option \<times> page option \<Rightarrow> string option \<times> page option" where
  "resolve_parts [] acc = acc"
| "resolve_parts (UnicodePart s # ps) (template_name, parent_page) =
     resolve_parts ps (Some s, parent_page)"
| "resolve_parts (PagePart p # ps) (template_name, parent_page) =
     resolve_parts ps (template_name, Some p)"
| "resolve_parts (OtherPart # ps) acc = resolve_parts ps acc"

text \<open>\<open>pages[key].append(p)\<close> on a \<open>defaultdict(list)\<close>, and \<open>pages.get(key, [])\<close>.\<close>

definition dd_append :: "('k \<rightharpoonup> 'a list) \<Rightarrow> 'k \<Rightarrow> 'a \<Rightarrow> ('k \<rightharpoonup> 'a list)" where
  "dd_append pages k p = pages(k \<mapsto> (case pages k of None \<Rightarrow> [] | Some l \<Rightarrow> l) @ [p])"

definition dd_get :: "('k \<rightharpoonup> 'a list) \<Rightarrow> 'k \<Rightarrow> 'a list" where
  "dd_get pages k = (case pages k of None \<Rightarrow> [] | Some l \<Rightarrow> l)"

text \<open>
  The loop that fills the dict, over the published pages ordered by \<open>_order\<close> (rows whose
  \<open>_order\<close> is null come first, rows of equal \<open>_order\<close> keep the table's order).
\<close>

fun collect_pages :: "string \<Rightarrow> page list \<Rightarrow> (nat option \<rightharpoonup> page list) \<Rightarrow> (nat option \<rightharpoonup> page list)" where
  "collect_pages current_slug [] pages = pages"
| "collect_pages current_slug (p # ps) pages =
     collect_pages current_slug ps (dd_append pages (parent_id p) (set_menu_helpers current_slug p))"

definition build_menu_pages :: "'u site_env \<Rightarrow> 'u template_context \<Rightarrow> 'u template_context" where
  "build_menu_pages env ctx =
     (let (user, current_slug) = (case request ctx of
                                    Some (u, path) \<Rightarrow> (Some u, path)
                                  | None \<Rightarrow> (None, []));
          published_pages = filter (published env user) (all_pages env);
          pages = collect_pages current_slug (sort_key order_f published_pages) Map.empty
      in ctx\<lparr>menu_pages := Some pages, on_home := Some (current_slug = home_url env)\<rparr>)"

text \<open>
  The closure stored as \<open>has_children\<close> on each page: it looks the page's id up in the
  dict of the context at the time it is called.
\<close>

definition has_children :: "'u template_context \<Rightarrow> page \<Rightarrow> bool" where
  "has_children ctx p = (case menu_pages ctx of None \<Rightarrow> False | Some pages \<Rightarrow> id_pk p \<in> dom pages)"

text \<open>
  \<open>page_menu\<close> up to the context it hands to the template. The pages of the branch are
  the objects held in the dict, so setting their \<open>branch_level\<close> shows in the dict too.
\<close>

definition page_menu :: "'u site_env \<Rightarrow> 'u template_context \<Rightarrow> part list \<Rightarrow> error + 'u template_context" where
  "page_menu env ctx parts =
     (case resolve_parts parts (None, None) of (template_name, parent_page) \<Rightarrow>
        (case (case template_name of
                 Some t \<Rightarrow> Some t
               | None \<Rightarrow> menu_template_name ctx) of
           None \<Rightarrow> Inl TemplateSyntaxError
         | Some t \<Rightarrow>
            (let ctx = ctx\<lparr>menu_template_name := Some t\<rparr>;
                 ctx = (if menu_pages ctx = None then build_menu_pages env ctx else ctx);
                 level = (case parent_page of
                            None \<Rightarrow> 0
                          | Some p \<Rightarrow> (case branch_level p of None \<Rightarrow> 0 | Some b \<Rightarrow> b) + 1);
                 key = (case parent_page of None \<Rightarrow> None | Some p \<Rightarrow> id_pk p);
                 pages = (case menu_pages ctx of None \<Rightarrow> Map.empty | Some m \<Rightarrow> m);
                 branch = map (\<lambda>p. p\<lparr>branch_level := Some level\<rparr>) (dd_get pages key);
                 pages = (if key \<in> dom pages then pages(key \<mapsto> branch) else pages)
             in Inr (ctx\<lparr>ctx_branch_level := Some level,
                          menu_pages := Some pages,
                          page_branch := Some branch\<rparr>))))"

section \<open>Vocabulary of the properties\<close>

subsection \<open>Slugs\<close>

text \<open>
  The value of a decimal digit and of a string of digits: the inverse of \<open>str_nat\<close>.
\<close>

definition digit_val :: "char \<Rightarrow> nat" where
  "digit_val c = of_char c - 48"

definition str_val :: "string \<Rightarrow> nat" where
  "str_val s = foldl (\<lambda>a c. 10 * a + digit_val c) 0 s"

text \<open>
  The candidate slugs of the loop: the base for \<open>i = 0\<close>, the base with the suffix \<open>-i\<close> for \<open>i \<ge> 1\<close>.
\<close>

definition slug_cand :: "string \<Rightarrow> nat \<Rightarrow> string" where
  "slug_cand base i = (if i = 0 then base else base @ ''-'' @ str_nat i)"

text \<open>
  The rows a slug is looked up in: all rows, without the row of the instance's own id; and how many
  of some rows hold a slug.
\<close>

definition others :: "'a slugged_scheme \<Rightarrow> 'a slugged_scheme list \<Rightarrow> 'a slugged_scheme list" where
  "others self objects =
     (case id_pk self of None \<Rightarrow> objects_all objects | Some k \<Rightarrow> exclude_id k (objects_all objects))"

definition slug_count :: "'a slugged_scheme list \<Rightarrow> string \<Rightarrow> nat" where
  "slug_count qs s = length (filter (\<lambda>r. slug r = Some s) qs)"

text \<open>
  No two rows of the table have the same site and the same slug.
\<close>

definition slug_unique_per_site :: "'a displayable_scheme list \<Rightarrow> bool" where
  "slug_unique_per_site objects = distinct (map (\<lambda>r. (site r, slug r)) objects)"

text \<open>
  The value of \<open>self.slug\<close> when iteration \<open>i\<close> of the loop begins.
\<close>

definition loop_entry :: "string \<Rightarrow> nat \<Rightarrow> string" where
  "loop_entry base i = (if i = 0 then base else slug_cand base (i - 1))"

text \<open>
  A stored row and a new instance of the same title, to run \<open>save\<close> on.
\<close>

definition ex_page :: slugged where
  "ex_page = \<lparr>id_pk = Some 1, title = ''a'', slug = Some ''a''\<rparr>"

definition ex_new_page :: slugged where
  "ex_new_page = \<lparr>id_pk = None, title = ''a'', slug = Some []\<rparr>"

subsection \<open>Ordering\<close>

text \<open>
  The rows ordered together with an instance: those whose \<open>order_with_respect_to\<close> field has the
  instance's value, all rows for a model without that field. The siblings of an instance are the
  rows of its group in the table.
\<close>

definition same_group ::
  "('a orderable_scheme \<Rightarrow> 'v) option \<Rightarrow> 'a orderable_scheme \<Rightarrow> 'a orderable_scheme \<Rightarrow> bool" where
  "same_group order_with_respect_to self r =
     (case order_with_respect_to of None \<Rightarrow> True | Some field \<Rightarrow> field r = field self)"

definition siblings ::
  "('a orderable_scheme \<Rightarrow> 'v) option \<Rightarrow> 'a orderable_scheme \<Rightarrow> 'a orderable_scheme list
     \<Rightarrow> 'a orderable_scheme list" where
  "siblings order_with_respect_to self objects =
     filter (same_group order_with_respect_to self) objects"



text \<open>
  Every \<open>_order\<close> of the table is a value of the column.
\<close>

definition orders_ok :: "'a orderable_scheme list \<Rightarrow> bool" where
  "orders_ok objects = list_all (\<lambda>r. integer_ok (order_f r)) objects"


text \<open>
  What the claim has \<open>delete\<close> make of the \<open>_order\<close> of a sibling, and of a row, when the deleted
  row had \<open>_order\<close> \<open>k\<close>.
\<close>

definition renumbered :: "int \<Rightarrow> int option \<Rightarrow> int option" where
  "renumbered k v = (case v of None \<Rightarrow> None | Some n \<Rightarrow> if k \<le> n then Some (n - 1) else Some n)"

definition decrement_from ::
  "('a orderable_scheme \<Rightarrow> 'v) option \<Rightarrow> 'a orderable_scheme \<Rightarrow> int \<Rightarrow> 'a orderable_scheme
     \<Rightarrow> 'a orderable_scheme" where
  "decrement_from order_with_respect_to self k r =
     (if same_group order_with_respect_to self r then r\<lparr>order_f := renumbered k (order_f r)\<rparr> else r)"

text \<open>
  The rows that go with the row of key \<open>k\<close> when it is deleted: the row itself and every row that
  references, through a foreign key of the model to itself, a row that goes with it. The other
  rows survive.
\<close>

inductive deleted_with ::
  "('a model_scheme \<Rightarrow> nat option) list \<Rightarrow> 'a model_scheme list \<Rightarrow> nat \<Rightarrow> nat \<Rightarrow> bool"
  for fks :: "('a model_scheme \<Rightarrow> nat option) list" and objects :: "'a model_scheme list" and k :: nat
  where
    itself: "deleted_with fks objects k k"
  | referrer: "deleted_with fks objects k j \<Longrightarrow> r \<in> set objects \<Longrightarrow> id_pk r = Some i \<Longrightarrow>
               fk \<in> set fks \<Longrightarrow> fk r = Some j \<Longrightarrow> deleted_with fks objects k i"


text \<open>
  Three top-level pages and a child of the first; the first page, to be deleted; the table after
  that; and a new child of the first page, before and after it is saved.
\<close>

definition ex_pages :: "page list" where
  "ex_pages =
     [\<lparr>id_pk = Some 1, order_f = Some 0, parent_id = None, branch_level = None, menu_helpers = None\<rparr>,
      \<lparr>id_pk = Some 2, order_f = Some 1, parent_id = None, branch_level = None, menu_helpers = None\<rparr>,
      \<lparr>id_pk = Some 3, order_f = Some 2, parent_id = None, branch_level = None, menu_helpers = None\<rparr>,
      \<lparr>id_pk = Some 4, order_f = Some 0, parent_id = Some 1, branch_level = None, menu_helpers = None\<rparr>]"



definition ex_new_child :: page where
  "ex_new_child =
     \<lparr>id_pk = None, order_f = None, parent_id = Some 1, branch_level = None, menu_helpers = None\<rparr>"

definition ex_new_child_saved :: page where
  "ex_new_child_saved =
     \<lparr>id_pk = Some 5, order_f = Some 1, parent_id = Some 1, branch_level = None, menu_helpers = None\<rparr>"

subsection \<open>Denormalised fields\<close>

text \<open>
  The string the keyword handler computes from the related manager.
\<close>

definition keywords_string :: "related_manager \<Rightarrow> string" where
  "keywords_string manager = join '' '' (map keyword (rel_items manager))"

text \<open>
  A blog post with the denormalised fields of the three field classes, the side table rows attached
  to it (and a rating attached to an object of another model), and the fields and managers of the
  post.
\<close>

definition ex_post :: generic_obj where
  "ex_post = \<lparr>id_pk = Some 1, obj_cls = ''BlogPost'',
     attrs = [''comments_count'' \<mapsto> IntV 0, ''keywords_string'' \<mapsto> StrV ''django'',
              ''rating_count'' \<mapsto> IntV 0, ''rating_average'' \<mapsto> IntV 0]\<rparr>"

definition ex_items :: "related_item list" where
  "ex_items =
     [\<lparr>id_pk = Some 1, cls = ''ThreadedComment'', content_type = Some ''BlogPost'', object_pk = 1,
        rating_value = 0, keyword = []\<rparr>,
      \<lparr>id_pk = Some 2, cls = ''ThreadedComment'', content_type = Some ''BlogPost'', object_pk = 1,
        rating_value = 0, keyword = []\<rparr>,
      \<lparr>id_pk = Some 1, cls = ''Rating'', content_type = Some ''BlogPost'', object_pk = 1,
        rating_value = 3, keyword = []\<rparr>,
      \<lparr>id_pk = Some 2, cls = ''Rating'', content_type = Some ''BlogPost'', object_pk = 1,
        rating_value = 4, keyword = []\<rparr>,
      \<lparr>id_pk = Some 1, cls = ''AssignedKeyword'', content_type = Some ''BlogPost'', object_pk = 1,
        rating_value = 0, keyword = ''django''\<rparr>,
      \<lparr>id_pk = Some 2, cls = ''AssignedKeyword'', content_type = Some ''BlogPost'', object_pk = 1,
        rating_value = 0, keyword = ''cms''\<rparr>,
      \<lparr>id_pk = Some 3, cls = ''Rating'', content_type = Some ''Site'', object_pk = 1,
        rating_value = 5, keyword = []\<rparr>]"

definition ex_db :: db where
  "ex_db = \<lparr>db_objects = [ex_post], db_items = ex_items, db_log = []\<rparr>"

definition ex_framework :: framework where
  "ex_framework = \<lparr>mro = (\<lambda>c. [c, ''Model'']), get_content_model = None,
     manager_count_queryset = None\<rparr>"

definition ex_field :: "field_class \<Rightarrow> class_name \<Rightarrow> string \<Rightarrow> field" where
  "ex_field c to name = \<lparr>field_cls = c, rel_to = to, field_model = ''BlogPost'',
     related_field_name = name\<rparr>"

definition ex_manager :: "class_name \<Rightarrow> string \<Rightarrow> related_manager" where
  "ex_manager to name = related_manager_of ex_framework (ex_field BaseGenericRelation to name) ex_post ex_db"

text \<open>
  The post with its keyword string up to date, and a signalled rating of another model's object.
\<close>

definition ex_post_synced :: generic_obj where
  "ex_post_synced = \<lparr>id_pk = Some 1, obj_cls = ''BlogPost'',
     attrs = [''comments_count'' \<mapsto> IntV 0, ''keywords_string'' \<mapsto> StrV ''django cms'',
              ''rating_count'' \<mapsto> IntV 0, ''rating_average'' \<mapsto> IntV 0]\<rparr>"

definition ex_signalled :: related_item where
  "ex_signalled = \<lparr>id_pk = Some 3, cls = ''Rating'', content_type = Some ''Site'', object_pk = 1,
        rating_value = 5, keyword = []\<rparr>"


text \<open>
  The object a handler works on once the row of the key is fetched: what its
  \<open>get_content_model\<close> returns where its class has the method, the fetched row otherwise.
  The method is expected to return the same row as an instance of its subclass: with
  the same id and the same attributes.
\<close>

definition content_model :: "framework \<Rightarrow> generic_obj \<Rightarrow> generic_obj" where
  "content_model fw obj = (case get_content_model fw of Some method \<Rightarrow> method obj | None \<Rightarrow> obj)"

definition content_model_same_row :: "framework \<Rightarrow> bool" where
  "content_model_same_row fw =
     (case get_content_model fw of
        None \<Rightarrow> True
      | Some method \<Rightarrow> (\<forall>x. id_pk (method x) = id_pk x \<and> attrs (method x) = attrs x))"

text \<open>
  The rows of the related model of a field that are attached to an object: those of the
  related class whose content type is the object's class and whose \<open>object_pk\<close> is its id,
  in the order of the side table.
\<close>

definition attached :: "framework \<Rightarrow> field \<Rightarrow> generic_obj \<Rightarrow> related_item list \<Rightarrow> related_item list" where
  "attached fw self obj items =
     filter (\<lambda>r. issubclass (mro fw) (cls r) (rel_to self) \<and>
                 content_type r = Some (obj_cls obj) \<and>
                 Some (object_pk r) = id_pk obj) items"

text \<open>The table with the row of key \<open>k\<close> replaced, every other row as it was.\<close>

definition with_row :: "generic_obj list \<Rightarrow> nat \<Rightarrow> generic_obj \<Rightarrow> generic_obj list" where
  "with_row objects k row = map (\<lambda>r. if id_pk r = Some k then row else r) objects"

text \<open>
  A comment, a rating and a keyword of the post, as the rows a save signal carries.
\<close>

definition ex_comment :: related_item where
  "ex_comment = \<lparr>id_pk = Some 1, cls = ''ThreadedComment'', content_type = Some ''BlogPost'',
     object_pk = 1, rating_value = 0, keyword = []\<rparr>"

definition ex_rating :: related_item where
  "ex_rating = \<lparr>id_pk = Some 2, cls = ''Rating'', content_type = Some ''BlogPost'',
     object_pk = 1, rating_value = 4, keyword = []\<rparr>"

definition ex_keyword :: related_item where
  "ex_keyword = \<lparr>id_pk = Some 2, cls = ''AssignedKeyword'', content_type = Some ''BlogPost'',
     object_pk = 1, rating_value = 0, keyword = ''cms''\<rparr>"
subsection \<open>Menus\<close>

text \<open>
  The user and the path the first call takes from the request, if the context has one.
\<close>

definition request_user :: "'u template_context \<Rightarrow> 'u option" where
  "request_user ctx = (case request ctx of Some (u, path) \<Rightarrow> Some u | None \<Rightarrow> None)"

definition request_path :: "'u template_context \<Rightarrow> string" where
  "request_path ctx = (case request ctx of Some (u, path) \<Rightarrow> path | None \<Rightarrow> [])"

text \<open>
  The published pages whose \<open>parent_id\<close> is \<open>k\<close>, in ascending \<open>_order\<close>, after \<open>set_menu_helpers\<close>.
\<close>

definition child_pages :: "'u site_env \<Rightarrow> 'u template_context \<Rightarrow> nat option \<Rightarrow> page list" where
  "child_pages env ctx k =
     map (set_menu_helpers (request_path ctx))
       (filter (\<lambda>p. parent_id p = k)
          (sort_key order_f (filter (published env (request_user ctx)) (all_pages env))))"

text \<open>
  The list stored for a key when a call looks it up: the list of the dict in the context, or on a
  first call the list of the dict that call builds.
\<close>

definition stored_list :: "'u site_env \<Rightarrow> 'u template_context \<Rightarrow> nat option \<Rightarrow> page list" where
  "stored_list env ctx k =
     (case menu_pages ctx of Some pages \<Rightarrow> dd_get pages k | None \<Rightarrow> child_pages env ctx k)"

text \<open>
  What a call is given: of the resolved arguments the strings and the pages, each in the
  order written. The template name given is the last of the strings and the parent page
  given the last of the pages, \<open>None\<close> where the call has no such argument.
\<close>

definition given_templates :: "part list \<Rightarrow> string list" where
  "given_templates parts = concat (map (\<lambda>x. case x of UnicodePart s \<Rightarrow> [s] | _ \<Rightarrow> []) parts)"

definition given_pages :: "part list \<Rightarrow> page list" where
  "given_pages parts = concat (map (\<lambda>x. case x of PagePart p \<Rightarrow> [p] | _ \<Rightarrow> []) parts)"

definition last_option :: "'a list \<Rightarrow> 'a option" where
  "last_option xs = (if xs = [] then None else Some (last xs))"

definition given_template :: "part list \<Rightarrow> string option" where
  "given_template parts = last_option (given_templates parts)"

definition given_page :: "part list \<Rightarrow> page option" where
  "given_page parts = last_option (given_pages parts)"

text \<open>
  The key a call looks up and the \<open>branch_level\<close> it gives, by the parent page it was given.
\<close>

definition menu_key :: "page option \<Rightarrow> nat option" where
  "menu_key parent_page = (case parent_page of None \<Rightarrow> None | Some p \<Rightarrow> id_pk p)"

definition menu_level :: "page option \<Rightarrow> int" where
  "menu_level parent_page =
     (case parent_page of
        None \<Rightarrow> 0
      | Some p \<Rightarrow> (case branch_level p of None \<Rightarrow> 0 | Some b \<Rightarrow> b) + 1)"

text \<open>
  A site of four pages, the third unpublished; an empty context; the branch of the root call; the
  context the root call leaves; and the branch of the call below the second page of the root
  branch.
\<close>

definition ex_site_pages :: "page list" where
  "ex_site_pages =
     [\<lparr>id_pk = Some 1, order_f = Some 1, parent_id = None, branch_level = None, menu_helpers = None\<rparr>,
      \<lparr>id_pk = Some 2, order_f = Some 0, parent_id = None, branch_level = None, menu_helpers = None\<rparr>,
      \<lparr>id_pk = Some 3, order_f = Some 2, parent_id = None, branch_level = None, menu_helpers = None\<rparr>,
      \<lparr>id_pk = Some 4, order_f = Some 0, parent_id = Some 1, branch_level = None, menu_helpers = None\<rparr>]"

definition ex_env :: "unit site_env" where
  "ex_env = \<lparr>all_pages = ex_site_pages, published = (\<lambda>user p. id_pk p \<noteq> Some 3), home_url = ''/''\<rparr>"

definition ex_ctx :: "unit template_context" where
  "ex_ctx = \<lparr>menu_template_name = None, menu_pages = None, request = None, on_home = None,
     ctx_branch_level = None, page_branch = None\<rparr>"

definition ex_root_branch :: "page list" where
  "ex_root_branch =
     [\<lparr>id_pk = Some 2, order_f = Some 0, parent_id = None, branch_level = Some 0, menu_helpers = Some []\<rparr>,
      \<lparr>id_pk = Some 1, order_f = Some 1, parent_id = None, branch_level = Some 0, menu_helpers = Some []\<rparr>]"

definition ex_ctx_root :: "unit template_context" where
  "ex_ctx_root =
     (case page_menu ex_env ex_ctx [UnicodePart ''pages/menu.html''] of
        Inr ctx' \<Rightarrow> ctx'
      | Inl e \<Rightarrow> ex_ctx)"

definition ex_child_branch :: "page list" where
  "ex_child_branch =
     [\<lparr>id_pk = Some 4, order_f = Some 0, parent_id = Some 1, branch_level = Some 1, menu_helpers = Some []\<rparr>]"

section \<open>Slugged: the slug that save stores\<close>

lemma rsplit_head_append: "c \<notin> set t \<Longrightarrow> rsplit_head c (s @ c # t) = s"
  by (induction s) auto

lemma digit_cases:
  "d < 10 \<Longrightarrow> d = 0 \<or> d = 1 \<or> d = 2 \<or> d = 3 \<or> d = 4 \<or> d = 5 \<or> d = 6 \<or> d = 7 \<or> d = 8 \<or> d = (9::nat)"
  by arith

lemma digit_val_char: "d < 10 \<Longrightarrow> digit_val (digit_char d) = d"
  using digit_cases [of d] by (auto simp: digit_val_def digit_char_def)

lemma digit_char_not_minus: "d < 10 \<Longrightarrow> digit_char d \<noteq> CHR ''-''"
  using digit_cases [of d] by (auto simp: digit_char_def)

lemma minus_notin_str_nat: "CHR ''-'' \<notin> set (str_nat n)"
proof (induction n rule: str_nat.induct)
  case (1 n)
  show ?case
  proof (cases "n < 10")
    case True
    then show ?thesis using digit_char_not_minus [of n] by (simp add: str_nat.simps [of n])
  next
    case False
    have "n mod 10 < 10" by simp
    then have "digit_char (n mod 10) \<noteq> CHR ''-''" by (rule digit_char_not_minus)
    with False 1 show ?thesis by (auto simp add: str_nat.simps [of n])
  qed
qed

lemma str_val_str_nat: "str_val (str_nat n) = n"
proof (induction n rule: str_nat.induct)
  case (1 n)
  show ?case
  proof (cases "n < 10")
    case True
    then show ?thesis by (simp add: str_nat.simps [of n] str_val_def digit_val_char)
  next
    case False
    with 1 have "str_val (str_nat (n div 10)) = n div 10" by simp
    with False show ?thesis
      by (simp add: str_nat.simps [of n] str_val_def digit_val_char)
  qed
qed

lemma str_nat_inj: "str_nat m = str_nat n \<Longrightarrow> m = n"
  by (metis str_val_str_nat)

lemma slug_cand_inj: "slug_cand base i = slug_cand base j \<Longrightarrow> i = j"
  by (auto simp: slug_cand_def split: if_splits dest: str_nat_inj)

lemma loop_slug_0: "loop_slug base 0 = slug_cand base 0"
  by (simp add: loop_slug_def slug_cand_def)

lemma loop_slug_Suc: "loop_slug (slug_cand base i) (Suc i) = slug_cand base (Suc i)"
  using rsplit_head_append [of "CHR ''-''" "str_nat i" base] minus_notin_str_nat [of i]
  by (auto simp: loop_slug_def slug_cand_def)

lemma get_by_slug_count:
  "get_by_slug qs s =
     (if slug_count qs s = 0 then Inl ObjectDoesNotExist
      else if slug_count qs s = 1 then Inr (hd (filter (\<lambda>r. slug r = Some s) qs))
      else Inl MultipleObjectsReturned)"
  by (simp add: get_by_slug_def slug_count_def split: list.splits)

lemma slug_loop_step:
  "slug_loop objects (id_pk self) s i =
     (if slug_count (others self objects) (loop_slug s i) = 0 then Some (Inr (loop_slug s i))
      else if slug_count (others self objects) (loop_slug s i) = 1
      then slug_loop objects (id_pk self) (loop_slug s i) (Suc i)
      else Some (Inl MultipleObjectsReturned))"
  by (subst slug_loop.simps) (simp add: others_def get_by_slug_count Let_def)

lemma loop_slug_entry: "loop_slug (loop_entry base i) i = slug_cand base i"
  using loop_slug_0 [of base] loop_slug_Suc [of base "i - 1"]
  by (cases i) (simp_all add: loop_entry_def)

lemma loop_entry_Suc: "loop_entry base (Suc i) = slug_cand base i"
  by (simp add: loop_entry_def)

lemma slug_loop_run:
  assumes "\<forall>j. i \<le> j \<and> j < k \<longrightarrow> slug_count (others self objects) (slug_cand base j) = 1"
    and "slug_count (others self objects) (slug_cand base k) \<noteq> 1"
    and "i \<le> k"
  shows "slug_loop objects (id_pk self) (loop_entry base i) i =
           Some (if slug_count (others self objects) (slug_cand base k) = 0
                 then Inr (slug_cand base k) else Inl MultipleObjectsReturned)"
  using assms
proof (induction "k - i" arbitrary: i)
  case 0
  then have ik: "i = k" by simp
  show ?case
    using 0(3) unfolding ik
    by (subst slug_loop_step) (simp add: loop_slug_entry)
next
  case (Suc d)
  then have lt: "i < k" by simp
  have one: "slug_count (others self objects) (slug_cand base i) = 1"
    using Suc.prems(1) lt by simp
  have ih: "slug_loop objects (id_pk self) (loop_entry base (Suc i)) (Suc i) =
           Some (if slug_count (others self objects) (slug_cand base k) = 0
                 then Inr (slug_cand base k) else Inl MultipleObjectsReturned)"
    using Suc.hyps(1) [of "Suc i"] Suc.hyps(2) Suc.prems lt by simp
  show ?case
    using one ih
    by (subst slug_loop_step) (simp add: loop_slug_entry loop_entry_Suc)
qed

lemma slug_count_pigeon: "\<exists>k \<le> length qs. slug_count qs (slug_cand base k) \<noteq> 1"
proof (rule ccontr)
  assume "\<not> ?thesis"
  then have all: "\<forall>k \<le> length qs. slug_count qs (slug_cand base k) = 1" by simp
  have sub: "(\<lambda>k. Some (slug_cand base k)) ` {..length qs} \<subseteq> set (map slug qs)"
  proof
    fix x assume "x \<in> (\<lambda>k. Some (slug_cand base k)) ` {..length qs}"
    then obtain k where k: "k \<le> length qs" "x = Some (slug_cand base k)" by auto
    with all have "filter (\<lambda>r. slug r = Some (slug_cand base k)) qs \<noteq> []"
      by (auto simp: slug_count_def)
    then obtain r where "r \<in> set qs" "slug r = Some (slug_cand base k)"
      by (metis (mono_tags, lifting) filter_False)
    with k show "x \<in> set (map slug qs)" by force
  qed
  have inj: "inj_on (\<lambda>k. Some (slug_cand base k)) {..length qs}"
    by (auto simp: inj_on_def dest: slug_cand_inj)
  have "card ((\<lambda>k. Some (slug_cand base k)) ` {..length qs}) = Suc (length qs)"
    using inj by (simp add: card_image)
  moreover have "card ((\<lambda>k. Some (slug_cand base k)) ` {..length qs}) \<le> card (set (map slug qs))"
    using sub by (intro card_mono) auto
  moreover have "card (set (map slug qs)) \<le> length qs"
    using card_length [of "map slug qs"] by simp
  ultimately show False by simp
qed

lemma slug_count_least:
  "\<exists>k. (\<forall>j<k. slug_count qs (slug_cand base j) = 1) \<and> slug_count qs (slug_cand base k) \<noteq> 1"
proof -
  obtain k0 where "slug_count qs (slug_cand base k0) \<noteq> 1"
    using slug_count_pigeon [of qs base] by blast
  then obtain k where "slug_count qs (slug_cand base k) \<noteq> 1"
    and "\<forall>j<k. \<not> slug_count qs (slug_cand base j) \<noteq> 1"
    using exists_least_iff [of "\<lambda>k. slug_count qs (slug_cand base k) \<noteq> 1"] by blast
  then show ?thesis by auto
qed

lemma Slugged_save_cases:
  assumes "slug_empty (slug self)"
  shows "\<exists>k. (\<forall>j<k. slug_count (others self objects) (slug_cand (slugify (title self)) j) = 1) \<and>
     (slug_count (others self objects) (slug_cand (slugify (title self)) k) = 0 \<and>
        Slugged_save slugify self objects =
          Some (Inr (Model_save (self\<lparr>slug := Some (slug_cand (slugify (title self)) k)\<rparr>) objects))
      \<or> 1 < slug_count (others self objects) (slug_cand (slugify (title self)) k) \<and>
        Slugged_save slugify self objects = Some (Inl MultipleObjectsReturned))"
proof -
  let ?base = "slugify (title self)"
  obtain k where k: "\<forall>j<k. slug_count (others self objects) (slug_cand ?base j) = 1"
    "slug_count (others self objects) (slug_cand ?base k) \<noteq> 1"
    using slug_count_least [of "others self objects" ?base] by blast
  have "slug_loop objects (id_pk self) ?base 0 =
           Some (if slug_count (others self objects) (slug_cand ?base k) = 0
                 then Inr (slug_cand ?base k) else Inl MultipleObjectsReturned)"
    using slug_loop_run [of 0 k self objects ?base] k by (simp add: loop_entry_def)
  with assms k show ?thesis
    by (intro exI [of _ k]) (auto simp: Slugged_save_def get_slug_def)
qed

lemma fold_max_ge: "a \<le> fold max xs (a::nat) \<and> (\<forall>x\<in>set xs. x \<le> fold max xs a)"
proof (induction xs arbitrary: a)
  case Nil
  show ?case by simp
next
  case (Cons y ys)
  have 1: "max y a \<le> fold max ys (max y a)" and 2: "\<forall>x\<in>set ys. x \<le> fold max ys (max y a)"
    using Cons.IH [of "max y a"] by simp_all
  from 1 2 show ?case by auto
qed

lemma next_id_fresh: "Some (next_id objects) \<notin> set (map id_pk objects)"
proof
  assume "Some (next_id objects) \<in> set (map id_pk objects)"
  then obtain r where r: "r \<in> set objects" "id_pk r = Some (next_id objects)" by auto
  then have "next_id objects \<in> set (map (\<lambda>r. case id_pk r of None \<Rightarrow> 0 | Some k \<Rightarrow> k) objects)"
    by force
  then have "next_id objects \<le> fold max (map (\<lambda>r. case id_pk r of None \<Rightarrow> 0 | Some k \<Rightarrow> k) objects) 0"
    using fold_max_ge by blast
  then show False by (simp add: next_id_def)
qed

lemma Model_save_stored: "Model_save self objects = (self', objects') \<Longrightarrow> self' \<in> set objects'"
  by (auto simp: Model_save_def Let_def split: option.splits if_splits)

lemma replace_ids:
  "id_pk self = Some k \<Longrightarrow> map id_pk (map (\<lambda>r. if id_pk r = Some k then self else r) objects) = map id_pk objects"
  by (induction objects) auto

lemma Model_save_table_ok:
  assumes "table_ok objects" and "Model_save self objects = (self', objects')"
  shows "table_ok objects'"
proof (cases "id_pk self")
  case None
  with assms next_id_fresh [of objects] show ?thesis
    by (auto simp: Model_save_def table_ok_def Let_def)
next
  case (Some k)
  show ?thesis
  proof (cases "Some k \<in> set (map id_pk objects)")
    case True
    with Some assms(2)
    have "objects' = map (\<lambda>r. if id_pk r = Some k then self else r) objects"
      by (simp add: Model_save_def)
    then have "map id_pk objects' = map id_pk objects"
      using replace_ids [OF Some, of objects] by simp
    with assms(1) show ?thesis by (simp add: table_ok_def)
  next
    case False
    with Some assms(2) have "objects' = objects @ [self]" by (auto simp: Model_save_def)
    with Some False assms(1) show ?thesis by (simp add: table_ok_def)
  qed
qed

lemma replace_distinct:
  assumes "distinct (map id_pk objects)" and "distinct (map f objects)"
    and "\<forall>r\<in>set objects. id_pk r \<noteq> Some k \<longrightarrow> f r \<noteq> f self"
  shows "distinct (map f (map (\<lambda>r. if id_pk r = Some k then self else r) objects))"
  using assms
proof (induction objects)
  case Nil
  show ?case by simp
next
  case (Cons x xs)
  show ?case
  proof (cases "id_pk x = Some k")
    case True
    with Cons.prems(1) have no: "\<forall>r\<in>set xs. id_pk r \<noteq> Some k" by force
    then have same: "map (\<lambda>r. if id_pk r = Some k then self else r) xs = xs"
      by (simp add: map_idI)
    from no Cons.prems(3) have "f self \<notin> f ` set xs" by auto
    with True same Cons.prems(2) show ?thesis by simp
  next
    case False
    define ys where "ys = map (\<lambda>r. if id_pk r = Some k then self else r) xs"
    with Cons.prems(3) False have ne: "f x \<noteq> f self" by simp
    have d: "distinct (map f ys)"
      unfolding ys_def using Cons.IH Cons.prems by simp
    have "set ys \<subseteq> insert self (set xs)"
      unfolding ys_def by auto
    then have "f x \<notin> f ` set ys"
      using Cons.prems(2) ne by fastforce
    with d have "distinct (map f (x # ys))" by simp
    moreover have "map (\<lambda>r. if id_pk r = Some k then self else r) (x # xs) = x # ys"
      using False by (simp add: ys_def)
    ultimately show ?thesis by (simp only:)
  qed
qed

lemma Model_save_slug_unique:
  fixes self :: "'a displayable_scheme"
  assumes ok: "table_ok objects" and uniq: "slug_unique_per_site objects"
    and free: "\<forall>r\<in>set (others self objects). slug r \<noteq> slug self"
    and save: "Model_save self objects = (self', objects')"
  shows "slug_unique_per_site objects'"
proof (cases "id_pk self")
  case None
  with free have "\<forall>r\<in>set objects. slug r \<noteq> slug self"
    by (simp add: others_def objects_all_def)
  then have "(site self, slug self) \<notin> (\<lambda>r. (site r, slug r)) ` set objects" by auto
  with None uniq save show ?thesis
    by (auto simp: Model_save_def slug_unique_per_site_def Let_def)
next
  case (Some k)
  with free have fr: "\<forall>r\<in>set objects. id_pk r \<noteq> Some k \<longrightarrow> slug r \<noteq> slug self"
    by (simp add: others_def objects_all_def exclude_id_def)
  show ?thesis
  proof (cases "Some k \<in> set (map id_pk objects)")
    case True
    have "distinct (map (\<lambda>r. (site r, slug r)) (map (\<lambda>r. if id_pk r = Some k then self else r) objects))"
      using ok uniq fr
      by (intro replace_distinct) (auto simp: table_ok_def slug_unique_per_site_def)
    with True Some save show ?thesis
      by (auto simp: Model_save_def slug_unique_per_site_def)
  next
    case False
    then have "\<forall>r\<in>set objects. id_pk r \<noteq> Some k" by force
    with fr have "(site self, slug self) \<notin> (\<lambda>r. (site r, slug r)) ` set objects" by auto
    with False Some uniq save show ?thesis
      by (auto simp: Model_save_def slug_unique_per_site_def)
  qed
qed

lemma slug_count_0: "slug_count qs s = 0 \<longleftrightarrow> (\<forall>r\<in>set qs. slug r \<noteq> Some s)"
  by (auto simp: slug_count_def filter_empty_conv)

text \<open>
  What \<open>save\<close> does with an empty slug, in full. The candidates are \<open>slugify(title)\<close>
  for \<open>k = 0\<close> and \<open>slugify(title) + "-" + k\<close> for \<open>k \<ge> 1\<close>, tried in this order against
  the other rows (all rows but the one with the instance's id). The loop always ends, at
  the first candidate that is not held by exactly one other row: a candidate no other
  row holds is stored as the slug of the saved instance, a candidate several rows hold
  makes \<open>qs.get\<close> raise \<open>MultipleObjectsReturned\<close>.
\<close>

lemma Slugged_save_result:
  assumes "slug_empty (slug self)"
  shows "\<exists>k. (\<forall>j<k. slug_count (others self objects) (slug_cand (slugify (title self)) j) = 1) \<and>
     (if slug_count (others self objects) (slug_cand (slugify (title self)) k) = 0
      then \<exists>self' objects'.
             Slugged_save slugify self objects = Some (Inr (self', objects')) \<and>
             (self', objects') = Model_save (self\<lparr>slug := Some (slug_cand (slugify (title self)) k)\<rparr>) objects \<and>
             slug self' = Some (slug_cand (slugify (title self)) k) \<and> self' \<in> set objects'
      else 1 < slug_count (others self objects) (slug_cand (slugify (title self)) k) \<and>
           Slugged_save slugify self objects = Some (Inl MultipleObjectsReturned))"
proof -
  let ?c = "slug_cand (slugify (title self))"
  obtain k where k: "\<forall>j<k. slug_count (others self objects) (?c j) = 1"
    and r: "slug_count (others self objects) (?c k) = 0 \<and>
        Slugged_save slugify self objects = Some (Inr (Model_save (self\<lparr>slug := Some (?c k)\<rparr>) objects))
      \<or> 1 < slug_count (others self objects) (?c k) \<and>
        Slugged_save slugify self objects = Some (Inl MultipleObjectsReturned)"
    using Slugged_save_cases [OF assms, of objects slugify] by blast
  obtain self' objects' where m: "Model_save (self\<lparr>slug := Some (?c k)\<rparr>) objects = (self', objects')"
    by (cases "Model_save (self\<lparr>slug := Some (?c k)\<rparr>) objects")
  have "self' \<in> set objects'" using m by (rule Model_save_stored)
  moreover have "slug self' = Some (?c k)"
    using m by (auto simp: Model_save_def Let_def split: option.splits if_splits)
  ultimately show ?thesis using k r m by (intro exI [of _ k]) auto
qed

text \<open>
  Where no slug is held by more than one other row, the save returns and stores the
  first candidate that no other row holds: \<open>slugify(title)\<close> when it is free, and
  otherwise the suffixed slug of the smallest \<open>i \<ge> 1\<close> that is free.
\<close>

lemma Slugged_save_first_free:
  assumes "slug_empty (slug self)"
    and "\<forall>s. slug_count (others self objects) s \<le> 1"
  shows "\<exists>k self' objects'.
     (\<forall>j<k. slug_count (others self objects) (slug_cand (slugify (title self)) j) \<noteq> 0) \<and>
     slug_count (others self objects) (slug_cand (slugify (title self)) k) = 0 \<and>
     Slugged_save slugify self objects = Some (Inr (self', objects')) \<and>
     slug self' = Some (slug_cand (slugify (title self)) k) \<and> self' \<in> set objects'"
proof -
  let ?c = "slug_cand (slugify (title self))"
  obtain k where k: "\<forall>j<k. slug_count (others self objects) (?c j) = 1"
    and r: "slug_count (others self objects) (?c k) = 0 \<and>
        Slugged_save slugify self objects = Some (Inr (Model_save (self\<lparr>slug := Some (?c k)\<rparr>) objects))
      \<or> 1 < slug_count (others self objects) (?c k) \<and>
        Slugged_save slugify self objects = Some (Inl MultipleObjectsReturned)"
    using Slugged_save_cases [OF assms(1), of objects slugify] by blast
  from assms(2) have "slug_count (others self objects) (?c k) \<le> 1" by blast
  with r have free: "slug_count (others self objects) (?c k) = 0"
    and run: "Slugged_save slugify self objects =
                Some (Inr (Model_save (self\<lparr>slug := Some (?c k)\<rparr>) objects))"
    by auto
  obtain self' objects' where m: "Model_save (self\<lparr>slug := Some (?c k)\<rparr>) objects = (self', objects')"
    by (cases "Model_save (self\<lparr>slug := Some (?c k)\<rparr>) objects")
  have st: "self' \<in> set objects'" using m by (rule Model_save_stored)
  have sl: "slug self' = Some (?c k)"
    using m by (auto simp: Model_save_def Let_def split: option.splits if_splits)
  from k have taken: "\<forall>j<k. slug_count (others self objects) (?c j) \<noteq> 0" by simp
  show ?thesis
  proof (intro exI conjI)
    show "\<forall>j<k. slug_count (others self objects) (?c j) \<noteq> 0" by (fact taken)
    show "slug_count (others self objects) (?c k) = 0" by (fact free)
    show "Slugged_save slugify self objects = Some (Inr (self', objects'))"
      using run m by simp
    show "slug self' = Some (?c k)" by (fact sl)
    show "self' \<in> set objects'" by (fact st)
  qed
qed

text \<open>
  Claim C1, for the saves that generate the slug. If no two rows on the same site have
  equal slugs and \<open>save\<close> is called on an instance whose slug is empty, then either the
  call raises \<open>MultipleObjectsReturned\<close>, leaving the table as it was, or it returns
  and still no two rows on the same site have equal slugs.
\<close>

theorem Slugged_save_keeps_unique:
  fixes self :: "'a displayable_scheme"
  assumes "table_ok objects" and "slug_unique_per_site objects" and "slug_empty (slug self)"
  shows "Slugged_save slugify self objects = Some (Inl MultipleObjectsReturned) \<or>
     (\<exists>self' objects'. Slugged_save slugify self objects = Some (Inr (self', objects')) \<and>
        table_ok objects' \<and> slug_unique_per_site objects')"
proof -
  let ?c = "slug_cand (slugify (title self))"
  obtain k where
    r: "slug_count (others self objects) (?c k) = 0 \<and>
        Slugged_save slugify self objects = Some (Inr (Model_save (self\<lparr>slug := Some (?c k)\<rparr>) objects))
      \<or> 1 < slug_count (others self objects) (?c k) \<and>
        Slugged_save slugify self objects = Some (Inl MultipleObjectsReturned)"
    using Slugged_save_cases [OF assms(3), of objects slugify] by blast
  then show ?thesis
  proof
    assume a: "slug_count (others self objects) (?c k) = 0 \<and>
        Slugged_save slugify self objects = Some (Inr (Model_save (self\<lparr>slug := Some (?c k)\<rparr>) objects))"
    let ?s = "self\<lparr>slug := Some (?c k)\<rparr>"
    obtain self' objects' where m: "Model_save ?s objects = (self', objects')"
      by (cases "Model_save ?s objects")
    have "others ?s objects = others self objects" by (simp add: others_def)
    with a have free: "\<forall>r\<in>set (others ?s objects). slug r \<noteq> slug ?s"
      by (simp add: slug_count_0)
    have "table_ok objects'" using assms(1) m by (rule Model_save_table_ok)
    moreover have "slug_unique_per_site objects'"
      using assms(1,2) free m by (rule Model_save_slug_unique)
    ultimately show ?thesis using a m by simp
  next
    assume "1 < slug_count (others self objects) (?c k) \<and>
        Slugged_save slugify self objects = Some (Inl MultipleObjectsReturned)"
    then show ?thesis by simp
  qed
qed

lemma str_nat_digit: "n < 10 \<Longrightarrow> str_nat n = [digit_char n]"
  by (simp add: str_nat.simps)

text \<open>
  A save with the slug already set makes no check: a new instance given the slug of a
  stored row of its site is inserted beside it.
\<close>

theorem Slugged_save_keeps_unique_counterexample:
  "table_ok [\<lparr>id_pk = Some 1, title = ''a'', slug = Some ''a'', site = 1\<rparr>] \<and>
   slug_unique_per_site [\<lparr>id_pk = Some 1, title = ''a'', slug = Some ''a'', site = 1\<rparr>] \<and>
   Slugged_save (\<lambda>t. t) \<lparr>id_pk = None, title = ''b'', slug = Some ''a'', site = 1\<rparr>
     [\<lparr>id_pk = Some 1, title = ''a'', slug = Some ''a'', site = 1\<rparr>] =
     Some (Inr (\<lparr>id_pk = Some 2, title = ''b'', slug = Some ''a'', site = 1\<rparr>,
       [\<lparr>id_pk = Some 1, title = ''a'', slug = Some ''a'', site = 1\<rparr>,
        \<lparr>id_pk = Some 2, title = ''b'', slug = Some ''a'', site = 1\<rparr>])) \<and>
   \<not> slug_unique_per_site
       [\<lparr>id_pk = Some 1, title = ''a'', slug = Some ''a'', site = 1\<rparr>,
        \<lparr>id_pk = Some 2, title = ''b'', slug = Some ''a'', site = 1\<rparr>]"
  by (simp add: table_ok_def slug_unique_per_site_def Slugged_save_def slug_empty_def
      Model_save_def next_id_def Let_def)

text \<open>
  Claim C2 holds of the intended behaviour and fails on the code at a table in which two
  other rows hold \<open>slugify(title)\<close>. The claim has the save store the suffixed slug of
  the smallest free \<open>i \<ge> 1\<close>, here \<open>a-1\<close>, which no row holds. The code stores nothing:
  \<open>qs.get\<close> finds two rows and raises \<open>MultipleObjectsReturned\<close>, which the loop, written
  for \<open>ObjectDoesNotExist\<close> alone, lets through.
\<close>

theorem Slugged_save_shared_slug_raises:
  "slug_empty (slug \<lparr>id_pk = None, title = ''a'', slug = None\<rparr>) \<and>
   slug_count (others \<lparr>id_pk = None, title = ''a'', slug = None\<rparr>
     [\<lparr>id_pk = Some 1, title = ''x'', slug = Some ''a''\<rparr>,
      \<lparr>id_pk = Some 2, title = ''y'', slug = Some ''a''\<rparr>]) ''a'' = 2 \<and>
   slug_count (others \<lparr>id_pk = None, title = ''a'', slug = None\<rparr>
     [\<lparr>id_pk = Some 1, title = ''x'', slug = Some ''a''\<rparr>,
      \<lparr>id_pk = Some 2, title = ''y'', slug = Some ''a''\<rparr>]) ''a-1'' = 0 \<and>
   Slugged_save (\<lambda>t. t) \<lparr>id_pk = None, title = ''a'', slug = None\<rparr>
     [\<lparr>id_pk = Some 1, title = ''x'', slug = Some ''a''\<rparr>,
      \<lparr>id_pk = Some 2, title = ''y'', slug = Some ''a''\<rparr>] =
     Some (Inl MultipleObjectsReturned)"
  by (simp add: Slugged_save_def slug_empty_def get_slug_def slug_loop.simps [of _ _ _ 0]
      loop_slug_def get_by_slug_def objects_all_def slug_count_def others_def)

text \<open>
  Saving a new instance titled like a stored row gives it the first suffixed slug.
\<close>

lemma Slugged_save_example:
  "Slugged_save (\<lambda>t. t) ex_new_page [ex_page] =
     Some (Inr (\<lparr>id_pk = Some 2, title = ''a'', slug = Some ''a-1''\<rparr>,
       [ex_page, \<lparr>id_pk = Some 2, title = ''a'', slug = Some ''a-1''\<rparr>]))"
  by (simp add: ex_page_def ex_new_page_def Slugged_save_def slug_empty_def get_slug_def
      slug_loop.simps [of _ _ _ 0] slug_loop.simps [of _ _ _ "Suc 0"] loop_slug_def
      get_by_slug_def objects_all_def str_nat_digit digit_char_def Model_save_def next_id_def Let_def)

text \<open>
  The theorem of C1 at a one-row table and a new instance with an empty slug.
\<close>

theorem Slugged_save_keeps_unique_witness:
  "table_ok [\<lparr>id_pk = Some 1, title = ''a'', slug = Some ''a'', site = 1\<rparr>] \<and>
   slug_unique_per_site [\<lparr>id_pk = Some 1, title = ''a'', slug = Some ''a'', site = 1\<rparr>] \<and>
   slug_empty (slug \<lparr>id_pk = None, title = ''a'', slug = None, site = 1\<rparr>) \<and>
   (Slugged_save (\<lambda>t. t) \<lparr>id_pk = None, title = ''a'', slug = None, site = 1\<rparr>
      [\<lparr>id_pk = Some 1, title = ''a'', slug = Some ''a'', site = 1\<rparr>] = Some (Inl MultipleObjectsReturned) \<or>
    (\<exists>self' objects'.
       Slugged_save (\<lambda>t. t) \<lparr>id_pk = None, title = ''a'', slug = None, site = 1\<rparr>
         [\<lparr>id_pk = Some 1, title = ''a'', slug = Some ''a'', site = 1\<rparr>] = Some (Inr (self', objects')) \<and>
       table_ok objects' \<and> slug_unique_per_site objects'))"
proof -
  let ?objects = "[\<lparr>id_pk = Some 1, title = ''a'', slug = Some ''a'', site = 1::nat\<rparr>]"
  let ?self = "\<lparr>id_pk = None, title = ''a'', slug = None, site = 1::nat\<rparr>"
  have 1: "table_ok ?objects" by (simp add: table_ok_def)
  have 2: "slug_unique_per_site ?objects" by (simp add: slug_unique_per_site_def)
  have 3: "slug_empty (slug ?self)" by (simp add: slug_empty_def)
  from 1 2 3 Slugged_save_keeps_unique [OF 1 2 3, of "\<lambda>t. t"] show ?thesis by simp
qed

section \<open>Orderable: the position given by save, the renumbering by delete\<close>








lemma lookup_matches_group:
  "lookup_matches (with_respect_to owrt self) r = same_group owrt self r"
  by (simp add: lookup_matches_def with_respect_to_def same_group_def split: option.splits)

lemma lookup_matches_gte:
  "lookup_matches (with_respect_to owrt self @ [OrderGte (Some k)]) r =
     (same_group owrt self r \<and> (case order_f r of None \<Rightarrow> False | Some n \<Rightarrow> k \<le> n))"
  using lookup_matches_group [of owrt self r] by (simp add: lookup_matches_def)

lemma with_respect_to_not_refused: "\<not> list_ex entry_refused (with_respect_to owrt self)"
  by (simp add: with_respect_to_def split: option.splits)

lemma order_update_same: "order_f r = v \<Longrightarrow> r\<lparr>order_f := v\<rparr> = r"
  by auto

lemma decrement_from_code:
  "(if lookup_matches (with_respect_to owrt self @ [OrderGte (Some k)]) r
    then r\<lparr>order_f := map_option (\<lambda>n. n - 1) (order_f r)\<rparr> else r) =
   decrement_from owrt self k r"
proof (cases "same_group owrt self r")
  case False
  then show ?thesis by (simp add: lookup_matches_gte decrement_from_def)
next
  case True
  show ?thesis
  proof (cases "order_f r")
    case None
    with True show ?thesis
      by (simp add: lookup_matches_gte decrement_from_def renumbered_def order_update_same)
  next
    case (Some n)
    with True show ?thesis
      by (simp add: lookup_matches_gte decrement_from_def renumbered_def order_update_same)
  qed
qed

lemma update_order_minus_1_eq:
  assumes "orders_ok objects" and "integer_min < k"
  shows "update_order_minus_1 (with_respect_to owrt self @ [OrderGte (Some k)]) objects =
           Inr (map (decrement_from owrt self k) objects)"
proof -
  let ?l = "with_respect_to owrt self @ [OrderGte (Some k)]"
  have "\<not> (lookup_matches ?l r \<and> \<not> integer_ok (map_option (\<lambda>n. n - 1) (order_f r)))"
    if "r \<in> set objects" for r
  proof (cases "order_f r")
    case None
    then show ?thesis by (simp add: integer_ok_def)
  next
    case (Some n)
    from assms(1) that have "integer_ok (order_f r)" by (simp add: orders_ok_def list_all_iff)
    with Some have "n \<le> integer_max" by (simp add: integer_ok_def)
    with Some assms(2) show ?thesis
      by (simp add: lookup_matches_gte integer_ok_def)
  qed
  then have "\<not> list_ex (\<lambda>r. lookup_matches ?l r \<and>
                \<not> integer_ok (map_option (\<lambda>n. n - 1) (order_f r))) objects"
    unfolding list_ex_iff by blast
  then show ?thesis
    by (simp add: update_order_minus_1_def decrement_from_code)
qed







lemma same_group_self: "same_group owrt self self"
  by (simp add: same_group_def split: option.splits)








lemma Model_save_order:
  "Model_save self objects = (self', objects') \<Longrightarrow> order_f self' = order_f self"
  by (auto simp: Model_save_def Let_def split: option.splits if_splits)

lemma Orderable_save_count:
  "order_f self = None \<Longrightarrow>
   Orderable_save owrt self objects =
     Orderable_super_save (self\<lparr>order_f := Some (int (length (siblings owrt self objects)))\<rparr>) objects"
proof -
  have "filter (lookup_matches (with_respect_to owrt self)) objects = siblings owrt self objects"
    by (simp add: siblings_def lookup_matches_group [abs_def])
  then show "order_f self = None \<Longrightarrow> ?thesis"
    using with_respect_to_not_refused [of owrt self]
    by (simp add: Orderable_save_def objects_filter_def objects_all_def Let_def)
qed

text \<open>
  Claim C4. After \<open>Orderable.save\<close> the \<open>_order\<close> of the instance is the number of rows
  whose \<open>order_with_respect_to\<close> field equals the instance's (of all rows, for a model
  without that field) if it was \<open>None\<close>, and what it was otherwise. With that value the
  instance is stored; the call raises, and leaves the table as it was, only if the value
  is outside the range of the column.
\<close>

theorem Orderable_save_sets_order:
  "\<exists>err self' objects'.
     Orderable_save owrt self objects = (err, self', objects') \<and>
     order_f self' =
       (case order_f self of
          None \<Rightarrow> Some (int (length (filter (same_group owrt self) objects)))
        | Some n \<Rightarrow> Some n) \<and>
     (if integer_ok (order_f self')
      then err = None \<and> self' \<in> set objects' \<and>
           (self', objects') = Model_save (self\<lparr>order_f := order_f self'\<rparr>) objects
      else err = Some DatabaseError \<and> objects' = objects)"
proof -
  define v where "v = (case order_f self of
          None \<Rightarrow> Some (int (length (filter (same_group owrt self) objects)))
        | Some n \<Rightarrow> Some n)"
  have run: "Orderable_save owrt self objects = Orderable_super_save (self\<lparr>order_f := v\<rparr>) objects"
  proof (cases "order_f self")
    case None
    then show ?thesis
      by (simp add: Orderable_save_count v_def siblings_def)
  next
    case (Some n)
    then have "self\<lparr>order_f := v\<rparr> = self" by (simp add: v_def order_update_same)
    with Some show ?thesis by (simp add: Orderable_save_def)
  qed
  show ?thesis
  proof (cases "integer_ok v")
    case False
    then have "Orderable_save owrt self objects = (Some DatabaseError, self\<lparr>order_f := v\<rparr>, objects)"
      by (simp add: run Orderable_super_save_def)
    with False show ?thesis by (simp add: v_def [symmetric])
  next
    case True
    obtain self' objects' where m: "Model_save (self\<lparr>order_f := v\<rparr>) objects = (self', objects')"
      by (cases "Model_save (self\<lparr>order_f := v\<rparr>) objects")
    have o: "order_f self' = v" using Model_save_order [OF m] by simp
    have st: "self' \<in> set objects'" using m by (rule Model_save_stored)
    have "Orderable_save owrt self objects = (None, self', objects')"
      using True m by (simp add: run Orderable_super_save_def)
    with True o st m show ?thesis by (simp add: v_def [symmetric])
  qed
qed

text \<open>
  A new child of the first page is the second child: it is given position 1, not the
  number of all pages.
\<close>

lemma Orderable_save_example:
  "Orderable_save (Some parent_id) ex_new_child ex_pages =
     (None, ex_new_child_saved, ex_pages @ [ex_new_child_saved])"
  by (simp add: Orderable_save_def Orderable_super_save_def with_respect_to_def objects_filter_def
      objects_all_def lookup_matches_def Model_save_def next_id_def integer_ok_def integer_min_def
      integer_max_def ex_new_child_def ex_new_child_saved_def ex_pages_def Let_def)

text \<open>
  The theorem of C4 at that child.
\<close>

theorem Orderable_save_sets_order_witness:
  "order_f ex_new_child = None \<and>
   length (filter (same_group (Some parent_id) ex_new_child) ex_pages) = 1 \<and>
   Orderable_save (Some parent_id) ex_new_child ex_pages =
     (None, ex_new_child_saved, ex_pages @ [ex_new_child_saved]) \<and>
   order_f ex_new_child_saved = Some 1 \<and>
   integer_ok (order_f ex_new_child_saved)"
proof -
  have n: "order_f ex_new_child = None" by (simp add: ex_new_child_def)
  have l: "length (filter (same_group (Some parent_id) ex_new_child) ex_pages) = 1"
    by (simp add: same_group_def ex_new_child_def ex_pages_def)
  from Orderable_save_sets_order [of "Some parent_id" ex_new_child ex_pages]
  obtain err self' objects' where
    run: "Orderable_save (Some parent_id) ex_new_child ex_pages = (err, self', objects')"
    and o: "order_f self' =
       (case order_f ex_new_child of
          None \<Rightarrow> Some (int (length (filter (same_group (Some parent_id) ex_new_child) ex_pages)))
        | Some n \<Rightarrow> Some n)"
    by (elim exE conjE)
  from o n l have o1: "order_f self' = Some 1" by simp
  from run have s: "self' = ex_new_child_saved" by (simp add: Orderable_save_example)
  from o1 s have "order_f ex_new_child_saved = Some 1" by simp
  moreover have "integer_ok (order_f ex_new_child_saved)"
    by (simp add: ex_new_child_saved_def integer_ok_def integer_min_def integer_max_def)
  ultimately show ?thesis using n l by (simp add: Orderable_save_example)
qed




text \<open>
  An instance without \<open>_order\<close> cannot be deleted: the lookup \<open>_order__gte=None\<close> is
  refused before anything is written.
\<close>

lemma Orderable_delete_None:
  "order_f self = None \<Longrightarrow> Orderable_delete owrt fks self objects = (Some ValueError, objects)"
  by (simp add: Orderable_delete_def objects_filter_def Let_def)

text \<open>
  An instance that was never stored makes \<open>Model.delete\<close> fail its assertion, after the
  siblings have been renumbered.
\<close>

lemma Orderable_delete_unsaved:
  assumes "orders_ok objects" and "order_f self = Some k" and "integer_min < k"
    and "id_pk self = None"
  shows "Orderable_delete owrt fks self objects =
           (Some AssertionError, map (decrement_from owrt self k) objects)"
  using assms(2,4) with_respect_to_not_refused [of owrt self]
    update_order_minus_1_eq [OF assms(1,3), of owrt self]
  by (simp add: Orderable_delete_def objects_filter_def Model_delete_def Let_def)

text \<open>
  A row whose \<open>_order\<close> is the minimum of the column cannot be deleted: the decrement
  leaves the range of the column and the update fails.
\<close>

lemma Orderable_delete_at_minimum:
  assumes "self \<in> set objects" and "order_f self = Some integer_min"
  shows "Orderable_delete owrt fks self objects = (Some DatabaseError, objects)"
proof -
  let ?l = "with_respect_to owrt self @ [OrderGte (Some integer_min)]"
  have "lookup_matches ?l self \<and> \<not> integer_ok (map_option (\<lambda>n. n - 1) (order_f self))"
    using assms(2) by (simp add: lookup_matches_gte same_group_self integer_ok_def)
  with assms(1) have "list_ex (\<lambda>r. lookup_matches ?l r \<and>
                \<not> integer_ok (map_option (\<lambda>n. n - 1) (order_f r))) objects"
    unfolding list_ex_iff by blast
  then show ?thesis
    using assms(2) with_respect_to_not_refused [of owrt self]
    by (simp add: Orderable_delete_def objects_filter_def update_order_minus_1_def Let_def)
qed

section \<open>Generic relation fields: the denormalised values\<close>

lemma format_s_count: "format_s ''%s_count'' name = name @ ''_count''"
  by simp

lemma format_s_string: "format_s ''%s_string'' name = name @ ''_string''"
  by simp

lemma format_s_average: "format_s ''%s_average'' name = name @ ''_average''"
  by simp

lemma instance_save_stored:
  "instance_save inst d = (inst', d') \<Longrightarrow>
     inst' \<in> set (db_objects d') \<and> attrs inst' = attrs inst \<and>
     db_log d' = db_log d @ [OpSave (id_pk inst)] \<and> db_items d' = db_items d"
  by (auto simp: instance_save_def Model_save_def Let_def split: option.splits if_splits prod.splits)

lemma KeywordsField_cases:
  assumes "attrs inst (related_field_name self @ ''_string'') = Some current"
  shows "KeywordsField_related_items_changed self inst manager d =
           (if current = StrV (keywords_string manager) then Inr (inst, d)
            else Inr (instance_save (setattr inst (related_field_name self @ ''_string'')
                                        (StrV (keywords_string manager))) d))"
  using assms
  by (simp add: KeywordsField_related_items_changed_def KeywordsField_fields_def
      keywords_string_def Let_def)

lemma KeywordsField_attrs:
  assumes "KeywordsField_related_items_changed self inst manager d = Inr (inst', d')"
  shows "attrs inst' (related_field_name self @ ''_string'') = Some (StrV (keywords_string manager))"
proof (cases "attrs inst (related_field_name self @ ''_string'')")
  case None
  with assms show ?thesis
    by (simp add: KeywordsField_related_items_changed_def KeywordsField_fields_def Let_def)
next
  case (Some current)
  show ?thesis
  proof (cases "current = StrV (keywords_string manager)")
    case True
    with assms Some show ?thesis by (simp add: KeywordsField_cases [OF Some])
  next
    case False
    let ?i = "setattr inst (related_field_name self @ ''_string'') (StrV (keywords_string manager))"
    from assms False have "instance_save ?i d = (inst', d')"
      by (simp add: KeywordsField_cases [OF Some])
    from instance_save_stored [OF this] show ?thesis by (simp add: setattr_def)
  qed
qed

text \<open>
  Claim C10. If the \<open>_string\<close> field already holds the joined keywords, the handler
  returns the instance and the database as they are, the log of writes included. Hence
  a second call after any call that returned, with the same related rows, changes
  nothing.
\<close>

theorem KeywordsField_writes_on_change_only:
  "(attrs inst (related_field_name self @ ''_string'') =
      Some (StrV (join '' '' (map keyword (rel_items manager)))) \<longrightarrow>
    KeywordsField_related_items_changed self inst manager d = Inr (inst, d)) \<and>
   (KeywordsField_related_items_changed self inst manager d = Inr (inst', d') \<longrightarrow>
    KeywordsField_related_items_changed self inst' manager d' = Inr (inst', d'))"
proof -
  let ?f = "related_field_name self @ ''_string''"
  have same: "KeywordsField_related_items_changed self i manager e = Inr (i, e)"
    if "attrs i ?f = Some (StrV (keywords_string manager))" for i e
    by (simp add: KeywordsField_cases [OF that])
  from same [of inst d] same [of inst' d'] KeywordsField_attrs [of self inst manager d inst' d']
  show ?thesis
    by (auto simp: keywords_string_def)
qed

lemma ex_manager_comments:
  "rel_items (ex_manager ''ThreadedComment'' ''comments'') = take 2 ex_items \<and>
   count_queryset (ex_manager ''ThreadedComment'' ''comments'') = None"
  by (simp add: ex_manager_def related_manager_of_def ex_framework_def ex_field_def ex_post_def
      ex_db_def ex_items_def issubclass_def)

lemma ex_manager_ratings:
  "rel_items (ex_manager ''Rating'' ''rating'') = take 2 (drop 2 ex_items)"
  by (simp add: ex_manager_def related_manager_of_def ex_framework_def ex_field_def ex_post_def
      ex_db_def ex_items_def issubclass_def)

lemma ex_manager_keywords:
  "rel_items (ex_manager ''AssignedKeyword'' ''keywords'') = take 2 (drop 4 ex_items)"
  by (simp add: ex_manager_def related_manager_of_def ex_framework_def ex_field_def ex_post_def
      ex_db_def ex_items_def issubclass_def)

text \<open>
  The theorem of C10: no write for the post that is up to date, one write and then none for the
  post that is behind.
\<close>

theorem KeywordsField_writes_on_change_only_witness:
  "attrs ex_post_synced ''keywords_string'' =
     Some (StrV (join '' '' (map keyword (rel_items (ex_manager ''AssignedKeyword'' ''keywords''))))) \<and>
   KeywordsField_related_items_changed (ex_field KeywordsField ''AssignedKeyword'' ''keywords'')
     ex_post_synced (ex_manager ''AssignedKeyword'' ''keywords'') ex_db = Inr (ex_post_synced, ex_db) \<and>
   (\<exists>inst' d'.
      KeywordsField_related_items_changed (ex_field KeywordsField ''AssignedKeyword'' ''keywords'')
        ex_post (ex_manager ''AssignedKeyword'' ''keywords'') ex_db = Inr (inst', d') \<and>
      db_log d' = [OpSave (Some 1)] \<and>
      KeywordsField_related_items_changed (ex_field KeywordsField ''AssignedKeyword'' ''keywords'')
        inst' (ex_manager ''AssignedKeyword'' ''keywords'') d' = Inr (inst', d'))"
proof -
  let ?self = "ex_field KeywordsField ''AssignedKeyword'' ''keywords''"
  let ?m = "ex_manager ''AssignedKeyword'' ''keywords''"
  have f: "related_field_name ?self @ ''_string'' = ''keywords_string''"
    by (simp add: ex_field_def)
  have j: "join '' '' (map keyword (rel_items ?m)) = ''django cms''"
    by (simp add: ex_manager_keywords ex_items_def)
  have 1: "attrs ex_post_synced ''keywords_string'' = Some (StrV (join '' '' (map keyword (rel_items ?m))))"
    unfolding j by (simp add: ex_post_synced_def)
  have k: "attrs ex_post (related_field_name ?self @ ''_string'') = Some (StrV ''django'')"
    unfolding f by (simp add: ex_post_def)
  obtain inst' d' where
    s: "instance_save (setattr ex_post (related_field_name ?self @ ''_string'')
          (StrV (keywords_string ?m))) ex_db = (inst', d')"
    by (cases "instance_save (setattr ex_post (related_field_name ?self @ ''_string'')
          (StrV (keywords_string ?m))) ex_db")
  have ne: "StrV ''django'' \<noteq> StrV (keywords_string ?m)"
    by (simp add: keywords_string_def j)
  have run: "KeywordsField_related_items_changed ?self ex_post ?m ex_db = Inr (inst', d')"
    using s ne by (simp add: KeywordsField_cases [OF k])
  have l: "db_log d' = [OpSave (Some 1)]"
    using instance_save_stored [OF s] by (simp add: ex_db_def setattr_def ex_post_def)
  have 2: "KeywordsField_related_items_changed ?self ex_post_synced ?m ex_db = Inr (ex_post_synced, ex_db)"
    using KeywordsField_writes_on_change_only [of ex_post_synced ?self ?m ex_db] 1
    unfolding f by blast
  have 3: "KeywordsField_related_items_changed ?self inst' ?m d' = Inr (inst', d')"
    using KeywordsField_writes_on_change_only [of ex_post ?self ?m ex_db inst' d'] run by blast
  from 1 2 3 run l show ?thesis by blast
qed

lemma related_items_changed_log:
  "related_items_changed self inst manager d = Inr (inst', d') \<Longrightarrow>
     d' = d \<or> (\<exists>i. instance_save i d = (inst', d'))"
  by (auto simp: related_items_changed_def CommentsField_related_items_changed_def
      KeywordsField_related_items_changed_def RatingField_related_items_changed_def Let_def
      split: field_class.splits option.splits if_splits sum.splits)

text \<open>
  Claim C9. When the signalled instance is not an instance of the field's related model,
  or the model class of its content type is not the model of the field or a subclass of
  it, the handler leaves the database as it is: no row is changed and no query is
  logged. It returns without an exception, except that a content type without a model
  class makes \<open>issubclass\<close> raise \<open>TypeError\<close>.
\<close>

theorem signal_from_unrelated_row:
  assumes "\<not> issubclass (mro fw) (cls kwargs_instance) (rel_to self) \<or>
           (case content_type kwargs_instance of
              None \<Rightarrow> True
            | Some for_model \<Rightarrow> \<not> issubclass (mro fw) for_model (field_model self))"
  shows "signal_related_items_changed fw self kwargs_instance d =
           (if issubclass (mro fw) (cls kwargs_instance) (rel_to self) \<and>
               content_type kwargs_instance = None
            then Some TypeError else None, d)"
  using assms
  by (auto simp: signal_related_items_changed_def split: option.splits)

text \<open>
  The theorem of C9 at a rating of an object of another model.
\<close>

theorem signal_from_unrelated_row_witness:
  "issubclass (mro ex_framework) (cls ex_signalled) (rel_to (ex_field RatingField ''Rating'' ''rating'')) \<and>
   content_type ex_signalled = Some ''Site'' \<and>
   \<not> issubclass (mro ex_framework) ''Site'' (field_model (ex_field RatingField ''Rating'' ''rating'')) \<and>
   signal_related_items_changed ex_framework (ex_field RatingField ''Rating'' ''rating'')
     ex_signalled ex_db = (None, ex_db)"
proof -
  have 1: "issubclass (mro ex_framework) (cls ex_signalled) (rel_to (ex_field RatingField ''Rating'' ''rating''))"
    by (simp add: issubclass_def ex_framework_def ex_signalled_def ex_field_def)
  have 2: "content_type ex_signalled = Some ''Site''" by (simp add: ex_signalled_def)
  have 3: "\<not> issubclass (mro ex_framework) ''Site'' (field_model (ex_field RatingField ''Rating'' ''rating''))"
    by (simp add: issubclass_def ex_framework_def ex_field_def)
  have h: "\<not> issubclass (mro ex_framework) (cls ex_signalled) (rel_to (ex_field RatingField ''Rating'' ''rating'')) \<or>
           (case content_type ex_signalled of
              None \<Rightarrow> True
            | Some for_model \<Rightarrow> \<not> issubclass (mro ex_framework) for_model
                (field_model (ex_field RatingField ''Rating'' ''rating'')))"
    using 2 3 by simp
  from signal_from_unrelated_row [OF h, of ex_db] 1 2 3 show ?thesis by simp
qed

text \<open>
  Conversely, a signal from a row of the related model attached to the field's model does reach the
  database: the object is fetched.
\<close>

lemma signal_from_related_row:
  assumes "issubclass (mro fw) (cls kwargs_instance) (rel_to self)"
    and "content_type kwargs_instance = Some for_model"
    and "issubclass (mro fw) for_model (field_model self)"
  shows "OpGet (object_pk kwargs_instance) \<in> set (db_log (snd (signal_related_items_changed fw self kwargs_instance d)))"
proof -
  let ?d = "d\<lparr>db_log := db_log d @ [OpGet (object_pk kwargs_instance)]\<rparr>"
  have keep: "OpGet (object_pk kwargs_instance) \<in> set (db_log d')"
    if "related_items_changed self inst manager ?d = Inr (inst', d')" for inst manager inst' d'
    using related_items_changed_log [OF that] instance_save_stored by fastforce
  show ?thesis
    using assms keep
    by (auto simp: signal_related_items_changed_def Let_def split: sum.splits option.splits)
qed

text \<open>
  The whole path for a saved comment: the post is fetched, its count set and the post saved.
\<close>

lemma signal_example:
  "\<exists>inst'. signal_related_items_changed ex_framework (ex_field CommentsField ''ThreadedComment'' ''comments'')
     (hd ex_items) ex_db =
     (None, \<lparr>db_objects = [inst'], db_items = ex_items, db_log = [OpGet 1, OpSave (Some 1)]\<rparr>) \<and>
     attrs inst' ''comments_count'' = Some (IntV 2)"
  by (simp add: signal_related_items_changed_def related_items_changed_def
      CommentsField_related_items_changed_def CommentsField_fields_def related_manager_of_def
      instance_save_def Model_save_def get_by_id_def setattr_def issubclass_def
      ex_framework_def ex_field_def ex_items_def ex_db_def ex_post_def Let_def)


subsection \<open>From a signal to the stored row\<close>

lemma round_half_even_int: "round_half_even (of_int z) = z"
  by (simp add: round_half_even_def)

lemma round_half_even_near: "\<bar>of_int (round_half_even x) - x\<bar> \<le> 1 / 2"
proof -
  have "of_int \<lfloor>x\<rfloor> \<le> x" and "x < of_int \<lfloor>x\<rfloor> + 1" by linarith+
  then show ?thesis
    by (auto simp: round_half_even_def Let_def abs_le_iff)
qed

lemma floor_log2_bounds:
  assumes "x \<noteq> 0"
  shows "2 powr of_int \<lfloor>log 2 \<bar>x\<bar>\<rfloor> \<le> \<bar>x\<bar>"
proof -
  have "of_int \<lfloor>log 2 \<bar>x\<bar>\<rfloor> \<le> log 2 \<bar>x\<bar>" by simp
  then have "2 powr of_int \<lfloor>log 2 \<bar>x\<bar>\<rfloor> \<le> 2 powr log 2 \<bar>x\<bar>"
    by (simp only: powr_le_cancel_iff [of 2] one_less_numeral_iff semiring_norm)
  also have "2 powr log 2 \<bar>x\<bar> = \<bar>x\<bar>" using assms by simp
  finally show ?thesis .
qed

lemma round_double_error:
  assumes "x \<noteq> 0"
  shows "\<bar>round_double x - x\<bar> \<le> 2 powr of_int (double_exponent x) / 2"
proof -
  let ?p = "2 powr of_int (double_exponent x) :: real"
  have p: "0 < ?p" by simp
  have "round_double x - x = (of_int (round_half_even (x / ?p)) - x / ?p) * ?p"
    using assms p by (simp add: round_double_def field_simps)
  then have "\<bar>round_double x - x\<bar> = \<bar>of_int (round_half_even (x / ?p)) - x / ?p\<bar> * ?p"
    using p by (simp add: abs_mult)
  also have "\<dots> \<le> 1 / 2 * ?p"
    using round_half_even_near [of "x / ?p"] p by (intro mult_right_mono) simp_all
  finally show ?thesis by simp
qed

lemma round_double_relative:
  assumes "2 powr (- 1022) \<le> \<bar>x\<bar>"
  shows "\<bar>round_double x - x\<bar> \<le> \<bar>x\<bar> * 2 powr (- 53)"
proof -
  have x0: "x \<noteq> 0" using assms by (cases "x = 0") auto
  have pos: "0 < \<bar>x\<bar>" using x0 by simp
  have "log 2 (2 powr (- 1022)) \<le> log 2 \<bar>x\<bar>"
    using assms pos by (subst log_le_cancel_iff) simp_all
  then have "- 1022 \<le> log 2 \<bar>x\<bar>" by simp
  then have "(- 1022 :: int) \<le> \<lfloor>log 2 \<bar>x\<bar>\<rfloor>" by (simp add: le_floor_iff)
  then have "- 1074 \<le> \<lfloor>log 2 \<bar>x\<bar>\<rfloor> - 52" by linarith
  then have e: "double_exponent x = \<lfloor>log 2 \<bar>x\<bar>\<rfloor> - 52"
    by (simp only: double_exponent_def max_absorb1)
  have "(2::real) powr of_int (double_exponent x) / 2 =
        2 powr (of_int \<lfloor>log 2 \<bar>x\<bar>\<rfloor> + (- 53))"
    unfolding e by (simp add: powr_add powr_diff powr_minus field_simps)
  also have "\<dots> = 2 powr of_int \<lfloor>log 2 \<bar>x\<bar>\<rfloor> * 2 powr (- 53)"
    by (rule powr_add)
  also have "\<dots> \<le> \<bar>x\<bar> * 2 powr (- 53)"
    using floor_log2_bounds [OF x0] by (intro mult_right_mono) simp_all
  finally show ?thesis
    using round_double_error [OF x0] by linarith
qed

lemma round_double_int:
  assumes "\<bar>n\<bar> < 2 ^ 53"
  shows "round_double (of_int n) = of_int n"
proof (cases "n = 0")
  case True
  then show ?thesis by (simp add: round_double_def)
next
  case False
  let ?x = "of_int n :: real"
  let ?e = "double_exponent ?x"
  have "\<bar>?x\<bar> < 2 ^ 53" using assms by (metis of_int_abs of_int_less_numeral_power_cancel_iff)
  then have "\<bar>?x\<bar> < 2 powr 53" by (simp add: powr_numeral)
  then have "log 2 \<bar>?x\<bar> < 53"
    using False by (subst log_less_iff) simp_all
  then have "\<lfloor>log 2 \<bar>?x\<bar>\<rfloor> < 53" by (simp add: floor_less_iff)
  moreover have "1 \<le> \<bar>?x\<bar>" using False by (metis of_int_abs of_int_1_le_iff zero_less_abs_iff int_one_le_iff_zero_less)
  then have "0 \<le> log 2 \<bar>?x\<bar>" by simp
  then have "0 \<le> \<lfloor>log 2 \<bar>?x\<bar>\<rfloor>" by simp
  ultimately have "(0::int) \<le> \<lfloor>log 2 \<bar>?x\<bar>\<rfloor> \<and> \<lfloor>log 2 \<bar>?x\<bar>\<rfloor> < (53::int)" by simp
  then have e: "- 52 \<le> ?e" "?e \<le> 0"
    unfolding double_exponent_def by linarith+
  then have p: "(2::real) powr of_int ?e = 1 / 2 ^ nat (- ?e)"
    by (simp add: powr_real_of_int inverse_eq_divide)
  have "?x / 2 powr of_int ?e = of_int (n * 2 ^ nat (- ?e))"
    by (simp add: p)
  then have "round_half_even (?x / 2 powr of_int ?e) = n * 2 ^ nat (- ?e)"
    by (simp only: round_half_even_int)
  then have "round_double ?x = of_int (n * 2 ^ nat (- ?e)) * (1 / 2 ^ nat (- ?e))"
    using False by (simp add: round_double_def p)
  then show ?thesis by simp
qed

lemma get_by_id_stored:
  assumes "table_ok objects" and "obj \<in> set objects" and "id_pk obj = Some k"
  shows "get_by_id objects k = Inr obj"
proof -
  have d: "distinct (map id_pk objects)" using assms(1) by (simp add: table_ok_def)
  have "filter (\<lambda>r. id_pk r = Some k) objects = [obj]"
    using d assms(2,3)
  proof (induction objects)
    case Nil
    then show ?case by simp
  next
    case (Cons x xs)
    from Cons.prems(1) have nx: "id_pk x \<notin> id_pk ` set xs" by simp
    show ?case
    proof (cases "x = obj")
      case True
      with nx Cons.prems(3) have "\<forall>r\<in>set xs. id_pk r \<noteq> Some k" by (metis imageI)
      then have "filter (\<lambda>r. id_pk r = Some k) xs = []" by (auto simp: filter_empty_conv)
      with True Cons.prems(3) show ?thesis by simp
    next
      case False
      with Cons.prems(2) have "obj \<in> set xs" by simp
      with nx Cons.prems(3) have "id_pk x \<noteq> Some k" by (metis imageI)
      moreover have "filter (\<lambda>r. id_pk r = Some k) xs = [obj]"
        using Cons.IH Cons.prems \<open>obj \<in> set xs\<close> by simp
      ultimately show ?thesis by simp
    qed
  qed
  then show ?thesis by (simp add: get_by_id_def)
qed

lemma signal_reaches_handler:
  assumes "table_ok (db_objects d)" and "obj \<in> set (db_objects d)"
    and "id_pk obj = Some (object_pk kwargs_instance)"
    and "issubclass (mro fw) (cls kwargs_instance) (rel_to self)"
    and "content_type kwargs_instance = Some for_model"
    and "issubclass (mro fw) for_model (field_model self)"
  shows "signal_related_items_changed fw self kwargs_instance d =
     (case related_items_changed self (content_model fw obj)
             (related_manager_of fw self (content_model fw obj)
                (d\<lparr>db_log := db_log d @ [OpGet (object_pk kwargs_instance)]\<rparr>))
             (d\<lparr>db_log := db_log d @ [OpGet (object_pk kwargs_instance)]\<rparr>) of
        Inl e \<Rightarrow> (Some e, d\<lparr>db_log := db_log d @ [OpGet (object_pk kwargs_instance)]\<rparr>)
      | Inr (inst', d') \<Rightarrow> (None, d'))"
  using assms(4,5,6) get_by_id_stored [OF assms(1,2,3)]
  by (simp add: signal_related_items_changed_def content_model_def Let_def split: option.splits)

lemma manager_items:
  "rel_items (related_manager_of fw self inst d) = attached fw self inst (db_items d)"
  by (simp add: related_manager_of_def attached_def)

lemma manager_count_method:
  "count_queryset (related_manager_of fw self inst d) = manager_count_queryset fw"
  by (simp add: related_manager_of_def)

lemma content_model_row:
  "content_model_same_row fw \<Longrightarrow>
     id_pk (content_model fw obj) = id_pk obj \<and> attrs (content_model fw obj) = attrs obj"
  by (simp add: content_model_same_row_def content_model_def split: option.splits)

lemma signal_saves:
  assumes "table_ok (db_objects d)" and "obj \<in> set (db_objects d)"
    and "id_pk obj = Some (object_pk kwargs_instance)"
    and "issubclass (mro fw) (cls kwargs_instance) (rel_to self)"
    and "content_type kwargs_instance = Some for_model"
    and "issubclass (mro fw) for_model (field_model self)"
    and "content_model_same_row fw"
    and "related_items_changed self (content_model fw obj)
           (related_manager_of fw self (content_model fw obj)
              (d\<lparr>db_log := db_log d @ [OpGet (object_pk kwargs_instance)]\<rparr>))
           (d\<lparr>db_log := db_log d @ [OpGet (object_pk kwargs_instance)]\<rparr>) =
         Inr (instance_save ((content_model fw obj)\<lparr>attrs := new_attrs\<rparr>)
                (d\<lparr>db_log := db_log d @ [OpGet (object_pk kwargs_instance)]\<rparr>))"
  shows "signal_related_items_changed fw self kwargs_instance d =
     (None, d\<lparr>db_objects := with_row (db_objects d) (object_pk kwargs_instance)
                                 ((content_model fw obj)\<lparr>attrs := new_attrs\<rparr>),
               db_log := db_log d @ [OpGet (object_pk kwargs_instance),
                                     OpSave (Some (object_pk kwargs_instance))]\<rparr>)"
proof -
  let ?k = "object_pk kwargs_instance"
  let ?d1 = "d\<lparr>db_log := db_log d @ [OpGet ?k]\<rparr>"
  let ?i = "(content_model fw obj)\<lparr>attrs := new_attrs\<rparr>"
  have id: "id_pk ?i = Some ?k"
    using content_model_row [OF assms(7), of obj] assms(3) by simp
  have "Some ?k \<in> set (map id_pk (db_objects ?d1))"
    using assms(2,3) by force
  then have "instance_save ?i ?d1 =
       (?i, ?d1\<lparr>db_objects := with_row (db_objects ?d1) ?k ?i,
                db_log := db_log ?d1 @ [OpSave (Some ?k)]\<rparr>)"
    using id by (simp add: instance_save_def Model_save_def with_row_def)
  then show ?thesis
    using signal_reaches_handler [OF assms(1-6)] assms(8) by simp
qed

text \<open>
  Claim C5. Let a row of the related model of a \<open>CommentsField\<close> be signalled, attached
  by its content type to the field's model or a subclass and by its \<open>object_pk\<close> to a
  stored object, whose content model, where it has one, is the same row. Then the
  handler returns normally, having fetched the object and saved it with its \<open>_count\<close>
  field set, and changed nothing else. The count is what \<open>count_queryset\<close> returns
  where the manager has that method, and otherwise the number of rows of the related
  model that are attached to the object when the signal arrives, after the save or the
  delete that sent it.
\<close>

theorem CommentsField_stores_count:
  assumes "table_ok (db_objects d)" and "obj \<in> set (db_objects d)"
    and "id_pk obj = Some (object_pk kwargs_instance)"
    and "issubclass (mro fw) (cls kwargs_instance) (rel_to self)"
    and "content_type kwargs_instance = Some for_model"
    and "issubclass (mro fw) for_model (field_model self)"
    and "content_model_same_row fw"
    and "field_cls self = CommentsField"
  shows "signal_related_items_changed fw self kwargs_instance d =
     (None, d\<lparr>db_objects := with_row (db_objects d) (object_pk kwargs_instance)
        ((content_model fw obj)\<lparr>attrs := (attrs obj)(related_field_name self @ ''_count'' \<mapsto>
           IntV (case manager_count_queryset fw of
                   Some count_queryset_method \<Rightarrow>
                     count_queryset_method (attached fw self (content_model fw obj) (db_items d))
                 | None \<Rightarrow> int (length (attached fw self (content_model fw obj) (db_items d)))))\<rparr>),
       db_log := db_log d @ [OpGet (object_pk kwargs_instance),
                             OpSave (Some (object_pk kwargs_instance))]\<rparr>)"
proof -
  let ?d1 = "d\<lparr>db_log := db_log d @ [OpGet (object_pk kwargs_instance)]\<rparr>"
  let ?inst = "content_model fw obj"
  let ?count = "case manager_count_queryset fw of
                   Some count_queryset_method \<Rightarrow>
                     count_queryset_method (attached fw self ?inst (db_items d))
                 | None \<Rightarrow> int (length (attached fw self ?inst (db_items d)))"
  have a: "attrs ?inst = attrs obj" using content_model_row [OF assms(7)] by simp
  have "related_items_changed self ?inst (related_manager_of fw self ?inst ?d1) ?d1 =
          Inr (instance_save (?inst\<lparr>attrs := (attrs obj)(related_field_name self @ ''_count'' \<mapsto>
                 IntV ?count)\<rparr>) ?d1)"
    using assms(8)
    by (simp add: related_items_changed_def CommentsField_related_items_changed_def
        CommentsField_fields_def setattr_def a manager_items manager_count_method Let_def
        split: option.splits)
  with assms(1-7) show ?thesis by (rule signal_saves)
qed

lemma double_max_ge: "(2::real) ^ 54 \<le> double_max"
proof -
  have "(2::real) * 2 ^ 53 \<le> (2 ^ 53 - 1) * 2 ^ 971"
    by (intro mult_mono) simp_all
  then show ?thesis by (simp add: double_max_def)
qed

lemma float_of_int_exact:
  assumes "\<bar>n\<bar> < 2 ^ 53"
  shows "float_of_int n = Inr (of_int n)"
proof -
  have "\<bar>of_int n :: real\<bar> < 2 ^ 53"
    using assms by (metis of_int_abs of_int_less_numeral_power_cancel_iff)
  also have "(2::real) ^ 53 \<le> 2 ^ 54" by simp
  finally have "\<bar>of_int n :: real\<bar> \<le> double_max" using double_max_ge by linarith
  then show ?thesis
    by (simp add: float_of_int_def round_double_int [OF assms])
qed

lemma quotient_rounding:
  fixes s :: int and c :: nat
  assumes "\<bar>s\<bar> < 2 ^ 53" and "0 < c" and "int c < 2 ^ 53"
  shows "\<bar>round_double (of_int s / real c) - of_int s / real c\<bar> \<le> \<bar>of_int s / real c\<bar> * 2 powr (- 53)"
proof (cases "s = 0")
  case True
  then show ?thesis by (simp add: round_double_def)
next
  case False
  let ?q = "of_int s / real c :: real"
  have c53: "real c < 2 ^ 53" using assms(3) by (metis of_int_of_nat_eq of_int_less_numeral_power_cancel_iff)
  have "1 \<le> \<bar>of_int s :: real\<bar>"
    using False by (metis of_int_abs of_int_1_le_iff zero_less_abs_iff int_one_le_iff_zero_less)
  then have "1 / real c \<le> \<bar>?q\<bar>"
    using assms(2) by (simp add: divide_right_mono)
  moreover have "1 / 2 ^ 53 \<le> 1 / real c"
    using c53 assms(2) by (intro divide_left_mono) simp_all
  moreover have "(2::real) powr (- 1022) \<le> 1 / 2 ^ 53"
  proof -
    have "(2::real) powr (- 1022) \<le> 2 powr (- 53)" by (intro powr_mono) simp_all
    also have "(2::real) powr (- 53) = 1 / 2 ^ 53"
      by (simp add: powr_minus powr_numeral inverse_eq_divide)
    finally show ?thesis .
  qed
  ultimately have "2 powr (- 1022) \<le> \<bar>?q\<bar>" by linarith
  then show ?thesis by (rule round_double_relative)
qed

lemma quotient_in_range:
  fixes s :: int and c :: nat
  assumes "\<bar>s\<bar> < 2 ^ 53" and "0 < c" and "int c < 2 ^ 53"
  shows "\<bar>round_double (of_int s / real c)\<bar> \<le> double_max"
proof -
  let ?q = "of_int s / real c :: real"
  have s53: "\<bar>of_int s :: real\<bar> < 2 ^ 53"
    using assms(1) by (metis of_int_abs of_int_less_numeral_power_cancel_iff)
  have c1: "1 \<le> real c" using assms(2) by simp
  then have "\<bar>of_int s :: real\<bar> * 1 \<le> \<bar>of_int s\<bar> * real c"
    by (intro mult_left_mono) simp_all
  then have "\<bar>?q\<bar> \<le> \<bar>of_int s :: real\<bar>"
    using assms(2) by (simp add: divide_le_eq)
  with s53 have q: "\<bar>?q\<bar> < 2 ^ 53" by linarith
  have "(2::real) powr (- 53) \<le> 2 powr 0" by (intro powr_mono) simp_all
  then have "(2::real) powr (- 53) \<le> 1" by simp
  then have "\<bar>?q\<bar> * 2 powr (- 53) \<le> \<bar>?q\<bar> * 1"
    by (intro mult_left_mono) simp_all
  with quotient_rounding [OF assms] have "\<bar>round_double ?q - ?q\<bar> \<le> \<bar>?q\<bar>" by simp
  then have "\<bar>round_double ?q\<bar> \<le> 2 * \<bar>?q\<bar>" by linarith
  with q have "\<bar>round_double ?q\<bar> \<le> 2 ^ 54" by simp
  with double_max_ge show ?thesis by linarith
qed

lemma quotient_exact:
  fixes s :: int and c :: nat
  assumes "\<bar>s\<bar> < 2 ^ 53" and "0 < c" and "int c dvd s"
  shows "round_double (of_int s / real c) = of_int s / real c"
proof -
  from assms(3) obtain t where t: "s = int c * t" by (auto simp: dvd_def)
  with assms(2) have q: "of_int s / real c = (of_int t :: real)" by simp
  have "\<bar>t\<bar> * 1 \<le> \<bar>t\<bar> * int c"
    using assms(2) by (intro mult_left_mono) simp_all
  then have "\<bar>t\<bar> \<le> \<bar>s\<bar>"
    using t by (simp add: abs_mult mult.commute)
  with assms(1) have "\<bar>t\<bar> < 2 ^ 53" by linarith
  then show ?thesis unfolding q by (rule round_double_int)
qed

lemma RatingField_average_value:
  assumes "\<bar>sum_list ratings\<bar> < 2 ^ 53" and "int (length ratings) < 2 ^ 53"
  shows "RatingField_average ratings =
           Inr (if ratings = [] then IntV 0
                else FloatV (round_double (of_int (sum_list ratings) / real (length ratings))))"
proof (cases "ratings = []")
  case True
  then show ?thesis by (simp add: RatingField_average_def)
next
  case False
  then have c: "0 < length ratings" by simp
  have 1: "float_of_int (int (length ratings)) = Inr (real (length ratings))"
    using float_of_int_exact [of "int (length ratings)"] assms(2) by simp
  have 2: "float_of_int (sum_list ratings) = Inr (of_int (sum_list ratings))"
    using assms(1) by (rule float_of_int_exact)
  have 3: "\<not> double_max < \<bar>round_double (of_int (sum_list ratings) / real (length ratings))\<bar>"
    using quotient_in_range [OF assms(1) c assms(2)] by simp
  from False c 1 2 3 show ?thesis
    by (simp add: RatingField_average_def float_div_def Let_def)
qed

lemma round_double_at:
  assumes "2 powr of_int L \<le> \<bar>x\<bar>" and "\<bar>x\<bar> < 2 powr (of_int L + 1)" and "- 1022 \<le> L"
  shows "round_double x =
           of_int (round_half_even (x / 2 powr of_int (L - 52))) * 2 powr of_int (L - 52)"
proof -
  have pos: "0 < \<bar>x\<bar>"
  proof -
    have "(0::real) < 2 powr of_int L" by simp
    with assms(1) show ?thesis by linarith
  qed
  then have x0: "x \<noteq> 0" by auto
  have "of_int L \<le> log 2 \<bar>x\<bar>"
    using assms(1) pos by (subst le_log_iff) simp_all
  moreover have "log 2 \<bar>x\<bar> < of_int L + 1"
    using assms(2) pos by (subst log_less_iff) simp_all
  ultimately have "\<lfloor>log 2 \<bar>x\<bar>\<rfloor> = L" by (simp add: floor_eq_iff)
  with assms(3) have "double_exponent x = L - 52"
    unfolding double_exponent_def by linarith
  with x0 show ?thesis by (simp only: round_double_def if_False)
qed

lemma round_double_7_2: "round_double (7 / 2) = 7 / 2"
proof -
  have "round_double (7 / 2) =
          of_int (round_half_even ((7 / 2) / 2 powr of_int (1 - 52))) * 2 powr of_int (1 - 52)"
    by (rule round_double_at) simp_all
  also have "(2::real) powr of_int (1 - 52) = 1 / 2251799813685248"
    by (simp add: powr_minus inverse_eq_divide)
  also have "(7 / 2) / (1 / 2251799813685248) = (of_int 7881299347898368 :: real)"
    by simp
  finally show ?thesis by (simp only: round_half_even_int)
qed

lemma round_double_4_3: "round_double (4 / 3) = 6004799503160661 / 4503599627370496"
proof -
  have "round_double (4 / 3) =
          of_int (round_half_even ((4 / 3) / 2 powr of_int (0 - 52))) * 2 powr of_int (0 - 52)"
    by (rule round_double_at) simp_all
  also have "(2::real) powr of_int (0 - 52) = 1 / 4503599627370496"
    by (simp add: powr_minus inverse_eq_divide)
  also have "(4 / 3) / (1 / 4503599627370496) = (18014398509481984 / 3 :: real)"
    by simp
  also have "round_half_even (18014398509481984 / 3) = 6004799503160661"
    by (simp add: round_half_even_def Let_def)
  finally show ?thesis by simp
qed

text \<open>
  Three ratings 1, 1 and 2 have the average 1.3333333333333333, the double nearest to
  four thirds.
\<close>

lemma RatingField_average_example:
  "RatingField_average [1, 1, 2] = Inr (FloatV (6004799503160661 / 4503599627370496))"
proof -
  have "RatingField_average [1, 1, 2] =
          Inr (if [1, 1, 2 :: int] = [] then IntV 0
               else FloatV (round_double (of_int (sum_list [1, 1, 2]) / real (length [1, 1, 2 :: int]))))"
    by (rule RatingField_average_value) simp_all
  then show ?thesis by (simp add: round_double_4_3)
qed

text \<open>
  Claim C6. Let a row of the related model of a \<open>RatingField\<close> be signalled, attached
  as in C5 to a stored object, and let the sum and the number of the ratings attached
  to the object be integers that a float holds exactly (below \<open>2^53\<close>). Then the handler
  returns normally, having fetched the object and saved it with its \<open>_count\<close> field set
  to the number of attached ratings and its \<open>_average\<close> field to the integer \<open>0\<close> when
  there is none and otherwise to the float quotient of their sum by their number: the
  double nearest to the exact quotient, within the relative error \<open>2^-53\<close> of it, and
  equal to it when the number divides the sum.
\<close>

theorem RatingField_stores_average:
  assumes "table_ok (db_objects d)" and "obj \<in> set (db_objects d)"
    and "id_pk obj = Some (object_pk kwargs_instance)"
    and "issubclass (mro fw) (cls kwargs_instance) (rel_to self)"
    and "content_type kwargs_instance = Some for_model"
    and "issubclass (mro fw) for_model (field_model self)"
    and "content_model_same_row fw"
    and "field_cls self = RatingField"
    and "ratings = map rating_value (attached fw self (content_model fw obj) (db_items d))"
    and "\<bar>sum_list ratings\<bar> < 2 ^ 53" and "int (length ratings) < 2 ^ 53"
  shows "signal_related_items_changed fw self kwargs_instance d =
     (None, d\<lparr>db_objects := with_row (db_objects d) (object_pk kwargs_instance)
        ((content_model fw obj)\<lparr>attrs := (attrs obj)
           (related_field_name self @ ''_count'' \<mapsto> IntV (int (length ratings)),
            related_field_name self @ ''_average'' \<mapsto>
              (if ratings = [] then IntV 0
               else FloatV (round_double (of_int (sum_list ratings) / real (length ratings)))))\<rparr>),
       db_log := db_log d @ [OpGet (object_pk kwargs_instance),
                             OpSave (Some (object_pk kwargs_instance))]\<rparr>) \<and>
     (ratings \<noteq> [] \<longrightarrow>
        \<bar>round_double (of_int (sum_list ratings) / real (length ratings)) -
         of_int (sum_list ratings) / real (length ratings)\<bar>
          \<le> \<bar>of_int (sum_list ratings) / real (length ratings)\<bar> * 2 powr (- 53) \<and>
        (int (length ratings) dvd sum_list ratings \<longrightarrow>
           round_double (of_int (sum_list ratings) / real (length ratings)) =
             of_int (sum_list ratings) / real (length ratings)))"
proof -
  let ?d1 = "d\<lparr>db_log := db_log d @ [OpGet (object_pk kwargs_instance)]\<rparr>"
  let ?inst = "content_model fw obj"
  let ?avg = "if ratings = [] then IntV 0
               else FloatV (round_double (of_int (sum_list ratings) / real (length ratings)))"
  have a: "attrs ?inst = attrs obj" using content_model_row [OF assms(7)] by simp
  have avg: "RatingField_average ratings = Inr ?avg"
    using assms(10,11) by (rule RatingField_average_value)
  have r: "map rating_value (rel_items (related_manager_of fw self ?inst ?d1)) = ratings"
    by (simp add: manager_items assms(9))
  have "RatingField_related_items_changed self ?inst (related_manager_of fw self ?inst ?d1) ?d1 =
          Inr (instance_save (?inst\<lparr>attrs := (attrs obj)
                (related_field_name self @ ''_count'' \<mapsto> IntV (int (length ratings)),
                 related_field_name self @ ''_average'' \<mapsto> ?avg)\<rparr>) ?d1)"
    unfolding RatingField_related_items_changed_def Let_def r avg
    by (simp add: setattr_def a)
  then have "related_items_changed self ?inst (related_manager_of fw self ?inst ?d1) ?d1 =
          Inr (instance_save (?inst\<lparr>attrs := (attrs obj)
                (related_field_name self @ ''_count'' \<mapsto> IntV (int (length ratings)),
                 related_field_name self @ ''_average'' \<mapsto> ?avg)\<rparr>) ?d1)"
    using assms(8) by (simp add: related_items_changed_def)
  with assms(1-7) have run: "signal_related_items_changed fw self kwargs_instance d =
     (None, d\<lparr>db_objects := with_row (db_objects d) (object_pk kwargs_instance)
        (?inst\<lparr>attrs := (attrs obj)
           (related_field_name self @ ''_count'' \<mapsto> IntV (int (length ratings)),
            related_field_name self @ ''_average'' \<mapsto> ?avg)\<rparr>),
       db_log := db_log d @ [OpGet (object_pk kwargs_instance),
                             OpSave (Some (object_pk kwargs_instance))]\<rparr>)"
    by (rule signal_saves)
  have acc: "\<bar>round_double (of_int (sum_list ratings) / real (length ratings)) -
         of_int (sum_list ratings) / real (length ratings)\<bar>
          \<le> \<bar>of_int (sum_list ratings) / real (length ratings)\<bar> * 2 powr (- 53)"
    if "ratings \<noteq> []"
    using that by (intro quotient_rounding assms(10,11)) simp
  have ex: "round_double (of_int (sum_list ratings) / real (length ratings)) =
             of_int (sum_list ratings) / real (length ratings)"
    if "ratings \<noteq> []" "int (length ratings) dvd sum_list ratings"
    using that by (intro quotient_exact assms(10)) simp_all
  show ?thesis
    by (intro conjI impI) (fact run, erule acc, erule (1) ex)
qed

text \<open>
  Claim C7. Let a row of the related model of a \<open>KeywordsField\<close> be signalled, attached
  as in C5 to a stored object that has the \<open>_string\<close> field. Then the handler returns
  normally, having fetched the object. If the field already held the keywords of the
  attached rows, in the manager's order and joined by single spaces, nothing is written;
  otherwise the object is saved with the field set to that string. Either way the
  stored row of the object holds that string afterwards.
\<close>

theorem KeywordsField_stores_string:
  assumes "table_ok (db_objects d)" and "obj \<in> set (db_objects d)"
    and "id_pk obj = Some (object_pk kwargs_instance)"
    and "issubclass (mro fw) (cls kwargs_instance) (rel_to self)"
    and "content_type kwargs_instance = Some for_model"
    and "issubclass (mro fw) for_model (field_model self)"
    and "content_model_same_row fw"
    and "field_cls self = KeywordsField"
    and "attrs obj (related_field_name self @ ''_string'') = Some current"
    and "keywords = join '' '' (map keyword (attached fw self (content_model fw obj) (db_items d)))"
  shows "signal_related_items_changed fw self kwargs_instance d =
     (None,
      if current = StrV keywords
      then d\<lparr>db_log := db_log d @ [OpGet (object_pk kwargs_instance)]\<rparr>
      else d\<lparr>db_objects := with_row (db_objects d) (object_pk kwargs_instance)
               ((content_model fw obj)\<lparr>attrs := (attrs obj)
                  (related_field_name self @ ''_string'' \<mapsto> StrV keywords)\<rparr>),
             db_log := db_log d @ [OpGet (object_pk kwargs_instance),
                                   OpSave (Some (object_pk kwargs_instance))]\<rparr>) \<and>
     (\<forall>r\<in>set (db_objects (snd (signal_related_items_changed fw self kwargs_instance d))).
        id_pk r = Some (object_pk kwargs_instance) \<longrightarrow>
        attrs r (related_field_name self @ ''_string'') = Some (StrV keywords))"
proof -
  let ?k = "object_pk kwargs_instance"
  let ?d1 = "d\<lparr>db_log := db_log d @ [OpGet ?k]\<rparr>"
  let ?inst = "content_model fw obj"
  let ?f = "related_field_name self @ ''_string''"
  let ?new = "?inst\<lparr>attrs := (attrs obj)(?f \<mapsto> StrV keywords)\<rparr>"
  have a: "attrs ?inst = attrs obj" using content_model_row [OF assms(7)] by simp
  have k: "keywords_string (related_manager_of fw self ?inst ?d1) = keywords"
    by (simp add: keywords_string_def manager_items assms(10))
  have cur: "attrs ?inst ?f = Some current" using a assms(9) by simp
  have handler: "related_items_changed self ?inst (related_manager_of fw self ?inst ?d1) ?d1 =
          (if current = StrV keywords then Inr (?inst, ?d1)
           else Inr (instance_save ?new ?d1))"
    using assms(8) KeywordsField_cases [OF cur, of "related_manager_of fw self ?inst ?d1" ?d1]
    by (simp add: related_items_changed_def k setattr_def a)
  have d: "distinct (map id_pk (db_objects d))" using assms(1) by (simp add: table_ok_def)
  have only: "r = obj" if "r \<in> set (db_objects d)" "id_pk r = Some ?k" for r
    using d that assms(2,3) by (metis distinct_map inj_onD)
  show ?thesis
  proof (cases "current = StrV keywords")
    case True
    with handler have "related_items_changed self ?inst (related_manager_of fw self ?inst ?d1) ?d1 =
          Inr (?inst, ?d1)" by simp
    then have run: "signal_related_items_changed fw self kwargs_instance d = (None, ?d1)"
      using signal_reaches_handler [OF assms(1-6)] by simp
    have "\<forall>r\<in>set (db_objects ?d1). id_pk r = Some ?k \<longrightarrow> attrs r ?f = Some (StrV keywords)"
      using only assms(9) True by auto
    with run True show ?thesis by simp
  next
    case False
    with handler have "related_items_changed self ?inst (related_manager_of fw self ?inst ?d1) ?d1 =
          Inr (instance_save ?new ?d1)" by simp
    with assms(1-7) have run: "signal_related_items_changed fw self kwargs_instance d =
       (None, d\<lparr>db_objects := with_row (db_objects d) ?k ?new,
                 db_log := db_log d @ [OpGet ?k, OpSave (Some ?k)]\<rparr>)"
      by (rule signal_saves)
    have "\<forall>r\<in>set (with_row (db_objects d) ?k ?new).
            id_pk r = Some ?k \<longrightarrow> attrs r ?f = Some (StrV keywords)"
      by (auto simp: with_row_def)
    with run False show ?thesis by simp
  qed
qed

lemma ex_attached_comments:
  "attached ex_framework (ex_field CommentsField ''ThreadedComment'' ''comments'') ex_post ex_items =
     take 2 ex_items"
  by (simp add: attached_def ex_framework_def ex_field_def ex_post_def ex_items_def issubclass_def)

lemma ex_attached_ratings:
  "attached ex_framework (ex_field RatingField ''Rating'' ''rating'') ex_post ex_items =
     take 2 (drop 2 ex_items)"
  by (simp add: attached_def ex_framework_def ex_field_def ex_post_def ex_items_def issubclass_def)

lemma ex_attached_keywords:
  "attached ex_framework (ex_field KeywordsField ''AssignedKeyword'' ''keywords'') ex_post ex_items =
     take 2 (drop 4 ex_items)"
  by (simp add: attached_def ex_framework_def ex_field_def ex_post_def ex_items_def issubclass_def)

lemma ex_content_model: "content_model ex_framework obj = obj"
  by (simp add: content_model_def ex_framework_def)

lemma ex_with_row: "with_row [ex_post] (Suc 0) row = [row]"
  by (simp add: with_row_def ex_post_def)

text \<open>
  The theorem of C5 on the blog post: a comment attached to it is saved, the post has two
  comments then, and the handler fetches the post and saves it with the count 2.
\<close>

theorem CommentsField_stores_count_witness:
  "table_ok (db_objects ex_db) \<and> ex_post \<in> set (db_objects ex_db) \<and>
   id_pk ex_post = Some (object_pk ex_comment) \<and>
   issubclass (mro ex_framework) (cls ex_comment)
     (rel_to (ex_field CommentsField ''ThreadedComment'' ''comments'')) \<and>
   content_type ex_comment = Some ''BlogPost'' \<and>
   issubclass (mro ex_framework) ''BlogPost''
     (field_model (ex_field CommentsField ''ThreadedComment'' ''comments'')) \<and>
   content_model_same_row ex_framework \<and>
   field_cls (ex_field CommentsField ''ThreadedComment'' ''comments'') = CommentsField \<and>
   signal_related_items_changed ex_framework (ex_field CommentsField ''ThreadedComment'' ''comments'')
       ex_comment ex_db =
     (None, \<lparr>db_objects = [ex_post\<lparr>attrs := (attrs ex_post)(''comments_count'' \<mapsto> IntV 2)\<rparr>],
             db_items = ex_items, db_log = [OpGet 1, OpSave (Some 1)]\<rparr>)"
proof -
  let ?self = "ex_field CommentsField ''ThreadedComment'' ''comments''"
  have 1: "table_ok (db_objects ex_db)" by (simp add: ex_db_def table_ok_def ex_post_def)
  have 2: "ex_post \<in> set (db_objects ex_db)" by (simp add: ex_db_def)
  have 3: "id_pk ex_post = Some (object_pk ex_comment)" by (simp add: ex_post_def ex_comment_def)
  have 4: "issubclass (mro ex_framework) (cls ex_comment) (rel_to ?self)"
    by (simp add: issubclass_def ex_framework_def ex_comment_def ex_field_def)
  have 5: "content_type ex_comment = Some ''BlogPost''" by (simp add: ex_comment_def)
  have 6: "issubclass (mro ex_framework) ''BlogPost'' (field_model ?self)"
    by (simp add: issubclass_def ex_framework_def ex_field_def)
  have 7: "content_model_same_row ex_framework"
    by (simp add: content_model_same_row_def ex_framework_def)
  have 8: "field_cls ?self = CommentsField" by (simp add: ex_field_def)
  have k: "object_pk ex_comment = 1" by (simp add: ex_comment_def)
  have n: "related_field_name ?self = ''comments''" by (simp add: ex_field_def)
  have m: "manager_count_queryset ex_framework = None" by (simp add: ex_framework_def)
  have i: "db_items ex_db = ex_items" by (simp add: ex_db_def)
  have l: "length (take 2 ex_items) = 2" by (simp add: ex_items_def)
  have 9: "signal_related_items_changed ex_framework ?self ex_comment ex_db =
     (None, \<lparr>db_objects = [ex_post\<lparr>attrs := (attrs ex_post)(''comments_count'' \<mapsto> IntV 2)\<rparr>],
             db_items = ex_items, db_log = [OpGet 1, OpSave (Some 1)]\<rparr>)"
    using CommentsField_stores_count [OF 1 2 3 4 5 6 7 8]
    unfolding k n m i ex_content_model ex_attached_comments l
    by (simp add: ex_db_def ex_with_row)
  from 1 2 3 4 5 6 7 8 9 show ?thesis by (intro conjI)
qed

text \<open>
  The theorem of C6 on the blog post: a rating attached to it is saved, the post has the
  ratings 3 and 4 then, and the handler saves it with the count 2 and the average 3.5,
  which is a double and the exact quotient although 2 does not divide 7.
\<close>

theorem RatingField_stores_average_witness:
  "table_ok (db_objects ex_db) \<and> ex_post \<in> set (db_objects ex_db) \<and>
   id_pk ex_post = Some (object_pk ex_rating) \<and>
   issubclass (mro ex_framework) (cls ex_rating) (rel_to (ex_field RatingField ''Rating'' ''rating'')) \<and>
   content_type ex_rating = Some ''BlogPost'' \<and>
   issubclass (mro ex_framework) ''BlogPost'' (field_model (ex_field RatingField ''Rating'' ''rating'')) \<and>
   content_model_same_row ex_framework \<and>
   field_cls (ex_field RatingField ''Rating'' ''rating'') = RatingField \<and>
   [3, 4] = map rating_value (attached ex_framework (ex_field RatingField ''Rating'' ''rating'')
                                (content_model ex_framework ex_post) (db_items ex_db)) \<and>
   \<bar>sum_list [3, 4 :: int]\<bar> < 2 ^ 53 \<and> int (length [3, 4 :: int]) < 2 ^ 53 \<and>
   signal_related_items_changed ex_framework (ex_field RatingField ''Rating'' ''rating'')
       ex_rating ex_db =
     (None, \<lparr>db_objects = [ex_post\<lparr>attrs := (attrs ex_post)
                (''rating_count'' \<mapsto> IntV 2, ''rating_average'' \<mapsto> FloatV (7 / 2))\<rparr>],
             db_items = ex_items, db_log = [OpGet 1, OpSave (Some 1)]\<rparr>) \<and>
   \<bar>round_double (7 / 2) - 7 / 2\<bar> \<le> \<bar>7 / 2\<bar> * 2 powr (- 53)"
proof -
  let ?self = "ex_field RatingField ''Rating'' ''rating''"
  have 1: "table_ok (db_objects ex_db)" by (simp add: ex_db_def table_ok_def ex_post_def)
  have 2: "ex_post \<in> set (db_objects ex_db)" by (simp add: ex_db_def)
  have 3: "id_pk ex_post = Some (object_pk ex_rating)" by (simp add: ex_post_def ex_rating_def)
  have 4: "issubclass (mro ex_framework) (cls ex_rating) (rel_to ?self)"
    by (simp add: issubclass_def ex_framework_def ex_rating_def ex_field_def)
  have 5: "content_type ex_rating = Some ''BlogPost''" by (simp add: ex_rating_def)
  have 6: "issubclass (mro ex_framework) ''BlogPost'' (field_model ?self)"
    by (simp add: issubclass_def ex_framework_def ex_field_def)
  have 7: "content_model_same_row ex_framework"
    by (simp add: content_model_same_row_def ex_framework_def)
  have 8: "field_cls ?self = RatingField" by (simp add: ex_field_def)
  have 9: "[3, 4] = map rating_value (attached ex_framework ?self
             (content_model ex_framework ex_post) (db_items ex_db))"
    unfolding ex_content_model by (simp add: ex_db_def ex_attached_ratings) (simp add: ex_items_def)
  have 10: "\<bar>sum_list [3, 4 :: int]\<bar> < 2 ^ 53" by simp
  have 11: "int (length [3, 4 :: int]) < 2 ^ 53" by simp
  have k: "object_pk ex_rating = 1" by (simp add: ex_rating_def)
  have n: "related_field_name ?self = ''rating''" by (simp add: ex_field_def)
  have q: "real_of_int (sum_list [3, 4]) / real (length [3, 4 :: int]) = 7 / 2" by simp
  note main = RatingField_stores_average [OF 1 2 3 4 5 6 7 8 9 10 11]
  have 12: "signal_related_items_changed ex_framework ?self ex_rating ex_db =
     (None, \<lparr>db_objects = [ex_post\<lparr>attrs := (attrs ex_post)
                (''rating_count'' \<mapsto> IntV 2, ''rating_average'' \<mapsto> FloatV (7 / 2))\<rparr>],
             db_items = ex_items, db_log = [OpGet 1, OpSave (Some 1)]\<rparr>)"
    using conjunct1 [OF main]
    unfolding k n q ex_content_model round_double_7_2
    by (simp add: ex_db_def ex_with_row)
  have 13: "\<bar>round_double (7 / 2) - 7 / 2\<bar> \<le> \<bar>7 / 2\<bar> * 2 powr (- 53)"
    using conjunct2 [OF main] unfolding q by simp
  from 1 2 3 4 5 6 7 8 9 10 11 12 13 show ?thesis by (intro conjI)
qed

text \<open>
  The theorem of C7 on the blog post: a keyword attached to it is saved, the post has the
  keywords django and cms then, its field holds django, and the handler saves it with
  the string of both.
\<close>

theorem KeywordsField_stores_string_witness:
  "table_ok (db_objects ex_db) \<and> ex_post \<in> set (db_objects ex_db) \<and>
   id_pk ex_post = Some (object_pk ex_keyword) \<and>
   issubclass (mro ex_framework) (cls ex_keyword)
     (rel_to (ex_field KeywordsField ''AssignedKeyword'' ''keywords'')) \<and>
   content_type ex_keyword = Some ''BlogPost'' \<and>
   issubclass (mro ex_framework) ''BlogPost''
     (field_model (ex_field KeywordsField ''AssignedKeyword'' ''keywords'')) \<and>
   content_model_same_row ex_framework \<and>
   field_cls (ex_field KeywordsField ''AssignedKeyword'' ''keywords'') = KeywordsField \<and>
   attrs ex_post (related_field_name (ex_field KeywordsField ''AssignedKeyword'' ''keywords'') @ ''_string'')
     = Some (StrV ''django'') \<and>
   ''django cms'' = join '' '' (map keyword
       (attached ex_framework (ex_field KeywordsField ''AssignedKeyword'' ''keywords'')
          (content_model ex_framework ex_post) (db_items ex_db))) \<and>
   signal_related_items_changed ex_framework (ex_field KeywordsField ''AssignedKeyword'' ''keywords'')
       ex_keyword ex_db =
     (None, \<lparr>db_objects = [ex_post\<lparr>attrs := (attrs ex_post)
                (''keywords_string'' \<mapsto> StrV ''django cms'')\<rparr>],
             db_items = ex_items, db_log = [OpGet 1, OpSave (Some 1)]\<rparr>)"
proof -
  let ?self = "ex_field KeywordsField ''AssignedKeyword'' ''keywords''"
  have 1: "table_ok (db_objects ex_db)" by (simp add: ex_db_def table_ok_def ex_post_def)
  have 2: "ex_post \<in> set (db_objects ex_db)" by (simp add: ex_db_def)
  have 3: "id_pk ex_post = Some (object_pk ex_keyword)" by (simp add: ex_post_def ex_keyword_def)
  have 4: "issubclass (mro ex_framework) (cls ex_keyword) (rel_to ?self)"
    by (simp add: issubclass_def ex_framework_def ex_keyword_def ex_field_def)
  have 5: "content_type ex_keyword = Some ''BlogPost''" by (simp add: ex_keyword_def)
  have 6: "issubclass (mro ex_framework) ''BlogPost'' (field_model ?self)"
    by (simp add: issubclass_def ex_framework_def ex_field_def)
  have 7: "content_model_same_row ex_framework"
    by (simp add: content_model_same_row_def ex_framework_def)
  have 8: "field_cls ?self = KeywordsField" by (simp add: ex_field_def)
  have 9: "attrs ex_post (related_field_name ?self @ ''_string'') = Some (StrV ''django'')"
    by (simp add: ex_field_def ex_post_def)
  have 10: "''django cms'' = join '' '' (map keyword
       (attached ex_framework ?self (content_model ex_framework ex_post) (db_items ex_db)))"
    unfolding ex_content_model by (simp add: ex_db_def ex_attached_keywords) (simp add: ex_items_def)
  have k: "object_pk ex_keyword = 1" by (simp add: ex_keyword_def)
  have n: "related_field_name ?self = ''keywords''" by (simp add: ex_field_def)
  have 11: "signal_related_items_changed ex_framework ?self ex_keyword ex_db =
     (None, \<lparr>db_objects = [ex_post\<lparr>attrs := (attrs ex_post)
                (''keywords_string'' \<mapsto> StrV ''django cms'')\<rparr>],
             db_items = ex_items, db_log = [OpGet 1, OpSave (Some 1)]\<rparr>)"
    using conjunct1 [OF KeywordsField_stores_string [OF 1 2 3 4 5 6 7 8 9 10]]
    unfolding k n ex_content_model
    by (simp add: ex_db_def ex_with_row)
  from 1 2 3 4 5 6 7 8 9 10 11 show ?thesis by (intro conjI)
qed

section \<open>The page menu: the branch of a call\<close>

lemma dd_get_append:
  "dd_get (dd_append pages k' p) k = (if k = k' then dd_get pages k @ [p] else dd_get pages k)"
  by (simp add: dd_get_def dd_append_def)

lemma collect_pages_get:
  "dd_get (collect_pages s ps pages) k =
     dd_get pages k @ map (set_menu_helpers s) (filter (\<lambda>p. parent_id p = k) ps)"
  by (induction ps arbitrary: pages) (simp_all add: dd_get_append)

lemma dd_get_empty: "dd_get Map.empty k = []"
  by (simp add: dd_get_def)

lemma build_menu_pages_get:
  "\<exists>pages. menu_pages (build_menu_pages env ctx) = Some pages \<and>
           (\<forall>k. dd_get pages k = child_pages env ctx k)"
proof (cases "request ctx")
  case None
  then show ?thesis
    by (simp add: build_menu_pages_def child_pages_def request_user_def request_path_def
        collect_pages_get dd_get_empty)
next
  case (Some r)
  then show ?thesis
    by (cases r)
      (simp add: build_menu_pages_def child_pages_def request_user_def request_path_def
        collect_pages_get dd_get_empty)
qed

lemma relevel_get:
  "dd_get (if key \<in> dom pages then pages(key \<mapsto> map f (dd_get pages key)) else pages) k =
     (if k = key then map f (dd_get pages key) else dd_get pages k)"
  by (auto simp: dd_get_def split: option.splits)

lemma child_pages_sorted: "sorted (map order_f (child_pages env ctx k))"
proof -
  let ?xs = "sort_key order_f (filter (published env (request_user ctx)) (all_pages env))"
  have "sorted (map order_f ?xs)" by (rule sorted_sort_key)
  then have "sorted (map order_f (filter (\<lambda>p. parent_id p = k) ?xs))"
    by (rule sorted_filter)
  moreover have "map order_f (child_pages env ctx k) = map order_f (filter (\<lambda>p. parent_id p = k) ?xs)"
    by (simp add: child_pages_def set_menu_helpers_def)
  ultimately show ?thesis by simp
qed

lemma child_pages_mset:
  "mset (child_pages env ctx k) =
     image_mset (set_menu_helpers (request_path ctx))
       (filter_mset (\<lambda>p. parent_id p = k \<and> published env (request_user ctx) p)
          (mset (all_pages env)))"
  by (simp add: child_pages_def filter_filter_mset conj_commute)

lemma last_option_Cons:
  "last_option (x # xs) = (case last_option xs of None \<Rightarrow> Some x | Some y \<Rightarrow> Some y)"
  by (simp add: last_option_def)

lemma resolve_parts_acc:
  "resolve_parts parts (template_name, parent_page) =
     (case given_template parts of None \<Rightarrow> template_name | Some s \<Rightarrow> Some s,
      case given_page parts of None \<Rightarrow> parent_page | Some p \<Rightarrow> Some p)"
proof (induction parts arbitrary: template_name parent_page)
  case Nil
  then show ?case
    by (simp add: given_template_def given_page_def given_templates_def given_pages_def
        last_option_def)
next
  case (Cons x ps)
  show ?case
  proof (cases x)
    case (UnicodePart s)
    have "given_template (x # ps) =
            (case given_template ps of None \<Rightarrow> Some s | Some y \<Rightarrow> Some y)"
      and "given_page (x # ps) = given_page ps"
      by (simp_all add: UnicodePart given_template_def given_page_def given_templates_def
          given_pages_def last_option_Cons)
    then show ?thesis
      by (simp add: UnicodePart Cons.IH split: option.splits)
  next
    case (PagePart p)
    have "given_page (x # ps) = (case given_page ps of None \<Rightarrow> Some p | Some y \<Rightarrow> Some y)"
      and "given_template (x # ps) = given_template ps"
      by (simp_all add: PagePart given_template_def given_page_def given_templates_def
          given_pages_def last_option_Cons)
    then show ?thesis
      by (simp add: PagePart Cons.IH split: option.splits)
  next
    case OtherPart
    have "given_page (x # ps) = given_page ps" and "given_template (x # ps) = given_template ps"
      by (simp_all add: OtherPart given_template_def given_page_def given_templates_def
          given_pages_def)
    then show ?thesis by (simp add: OtherPart Cons.IH)
  qed
qed

lemma resolve_parts_given:
  "resolve_parts parts (None, None) = (given_template parts, given_page parts)"
  by (simp add: resolve_parts_acc split: option.splits)

lemma page_menu_run:
  assumes t: "(case given_template parts of Some t \<Rightarrow> Some t | None \<Rightarrow> menu_template_name ctx) = Some t"
    and m: "menu_pages (if menu_pages ctx = None
                        then build_menu_pages env (ctx\<lparr>menu_template_name := Some t\<rparr>)
                        else ctx\<lparr>menu_template_name := Some t\<rparr>) = Some pages"
  shows "\<exists>ctx'. page_menu env ctx parts = Inr ctx' \<and>
     menu_template_name ctx' = Some t \<and>
     ctx_branch_level ctx' = Some (menu_level (given_page parts)) \<and>
     page_branch ctx' = Some (map (\<lambda>p. p\<lparr>branch_level := Some (menu_level (given_page parts))\<rparr>)
                               (dd_get pages (menu_key (given_page parts)))) \<and>
     menu_pages ctx' = Some
       (if menu_key (given_page parts) \<in> dom pages
        then pages(menu_key (given_page parts) \<mapsto>
               map (\<lambda>p. p\<lparr>branch_level := Some (menu_level (given_page parts))\<rparr>)
                 (dd_get pages (menu_key (given_page parts))))
        else pages)"
proof (cases "menu_pages ctx = None")
  case True
  with m show ?thesis
    by (simp add: page_menu_def resolve_parts_given t Let_def menu_level_def menu_key_def
        build_menu_pages_def split: prod.splits)
next
  case False
  with m show ?thesis
    by (simp add: page_menu_def resolve_parts_given t Let_def menu_level_def menu_key_def)
qed

lemma child_pages_template:
  "child_pages env (ctx\<lparr>menu_template_name := t\<rparr>) k = child_pages env ctx k"
  by (simp add: child_pages_def request_user_def request_path_def)

lemma stored_before:
  "\<exists>pages. menu_pages (if menu_pages ctx = None
                        then build_menu_pages env (ctx\<lparr>menu_template_name := Some t\<rparr>)
                        else ctx\<lparr>menu_template_name := Some t\<rparr>) = Some pages \<and>
     (\<forall>k. dd_get pages k = stored_list env ctx k)"
proof (cases "menu_pages ctx")
  case None
  then show ?thesis
    using build_menu_pages_get [of env "ctx\<lparr>menu_template_name := Some t\<rparr>"]
    by (simp add: stored_list_def child_pages_template)
next
  case (Some pages)
  then show ?thesis by (simp add: stored_list_def)
qed

text \<open>
  Claim C8. Let the tag be called with a template name among its arguments or in the
  context, and with a parent page among its arguments or none. It returns a context
  holding a dict. The list the dict holds for a key is the list that was stored for it
  when the call looked it up, with \<open>branch_level\<close> set on the pages of the looked-up key;
  on the first call in a context the stored list of a key is the published pages with
  that \<open>parent_id\<close>, in ascending \<open>_order\<close>. \<open>page_branch\<close> is the list the dict holds for
  the id of the parent page given (for \<open>None\<close> without a parent), empty when nothing is
  stored for it, and each of its pages has \<open>branch_level\<close> \<open>0\<close> without a parent and the
  parent's \<open>branch_level\<close> plus one with a parent that has one.
\<close>

theorem page_menu_branch:
  assumes "given_template parts \<noteq> None \<or> menu_template_name ctx \<noteq> None"
  shows "\<exists>ctx' stored.
     page_menu env ctx parts = Inr ctx' \<and>
     menu_template_name ctx' =
       (case given_template parts of Some t \<Rightarrow> Some t | None \<Rightarrow> menu_template_name ctx) \<and>
     menu_pages ctx' = Some stored \<and>
     (\<forall>k. dd_get stored k =
        (if k = menu_key (given_page parts)
         then map (\<lambda>p. p\<lparr>branch_level := Some (menu_level (given_page parts))\<rparr>)
                (stored_list env ctx k)
         else stored_list env ctx k)) \<and>
     (menu_pages ctx = None \<longrightarrow>
        (\<forall>k. stored_list env ctx k = child_pages env ctx k \<and>
             sorted (map order_f (child_pages env ctx k)) \<and>
             mset (child_pages env ctx k) =
               image_mset (set_menu_helpers (request_path ctx))
                 (filter_mset (\<lambda>p. parent_id p = k \<and> published env (request_user ctx) p)
                    (mset (all_pages env))))) \<and>
     page_branch ctx' = Some (dd_get stored (menu_key (given_page parts))) \<and>
     (menu_key (given_page parts) \<notin> dom stored \<longrightarrow> page_branch ctx' = Some []) \<and>
     ctx_branch_level ctx' = Some (menu_level (given_page parts)) \<and>
     (\<forall>p\<in>set (dd_get stored (menu_key (given_page parts))).
        branch_level p = Some (menu_level (given_page parts))) \<and>
     (given_page parts = None \<longrightarrow>
        menu_key (given_page parts) = None \<and> menu_level (given_page parts) = 0) \<and>
     (\<forall>p. given_page parts = Some p \<longrightarrow>
        menu_key (given_page parts) = id_pk p \<and>
        (\<forall>b. branch_level p = Some b \<longrightarrow> menu_level (given_page parts) = b + 1))"
proof -
  let ?parent = "given_page parts"
  let ?key = "menu_key ?parent"
  let ?relevel = "\<lambda>p::page. p\<lparr>branch_level := Some (menu_level ?parent)\<rparr>"
  from assms obtain t where
    t: "(case given_template parts of Some t \<Rightarrow> Some t | None \<Rightarrow> menu_template_name ctx) = Some t"
    by (cases "given_template parts") auto
  obtain pages where
    m: "menu_pages (if menu_pages ctx = None
                        then build_menu_pages env (ctx\<lparr>menu_template_name := Some t\<rparr>)
                        else ctx\<lparr>menu_template_name := Some t\<rparr>) = Some pages"
    and g: "\<forall>k. dd_get pages k = stored_list env ctx k"
    using stored_before [of ctx env t] by blast
  define stored where
    "stored = (if ?key \<in> dom pages then pages(?key \<mapsto> map ?relevel (dd_get pages ?key)) else pages)"
  obtain ctx' where run: "page_menu env ctx parts = Inr ctx'"
    and tn: "menu_template_name ctx' = Some t"
    and lv: "ctx_branch_level ctx' = Some (menu_level ?parent)"
    and br: "page_branch ctx' = Some (map ?relevel (dd_get pages ?key))"
    and mp: "menu_pages ctx' = Some stored"
    using page_menu_run [OF t m] unfolding stored_def by blast
  have get: "dd_get stored k = (if k = ?key then map ?relevel (dd_get pages ?key) else dd_get pages k)" for k
    unfolding stored_def by (rule relevel_get)
  have 0: "menu_template_name ctx' =
       (case given_template parts of Some t \<Rightarrow> Some t | None \<Rightarrow> menu_template_name ctx)"
    using tn t by simp
  have 1: "\<forall>k. dd_get stored k =
        (if k = ?key then map ?relevel (stored_list env ctx k) else stored_list env ctx k)"
    using get g by simp
  have 2: "menu_pages ctx = None \<longrightarrow>
        (\<forall>k. stored_list env ctx k = child_pages env ctx k \<and>
             sorted (map order_f (child_pages env ctx k)) \<and>
             mset (child_pages env ctx k) =
               image_mset (set_menu_helpers (request_path ctx))
                 (filter_mset (\<lambda>p. parent_id p = k \<and> published env (request_user ctx) p)
                    (mset (all_pages env))))"
    using child_pages_sorted [of env ctx] child_pages_mset [of env ctx]
    by (simp add: stored_list_def)
  have 3: "page_branch ctx' = Some (dd_get stored ?key)"
    using br get [of ?key] by simp
  have 4: "?key \<notin> dom stored \<longrightarrow> page_branch ctx' = Some []"
    using 3 by (auto simp: dd_get_def split: option.splits)
  have 5: "\<forall>p\<in>set (dd_get stored ?key). branch_level p = Some (menu_level ?parent)"
    using get [of ?key] by auto
  have 6: "?parent = None \<longrightarrow> ?key = None \<and> menu_level ?parent = 0"
    by (simp add: menu_level_def menu_key_def)
  have 7: "\<forall>p. ?parent = Some p \<longrightarrow>
        ?key = id_pk p \<and> (\<forall>b. branch_level p = Some b \<longrightarrow> menu_level ?parent = b + 1)"
    by (simp add: menu_level_def menu_key_def)
  show ?thesis
  proof (intro exI conjI)
    show "page_menu env ctx parts = Inr ctx'" by (fact run)
    show "menu_pages ctx' = Some stored" by (fact mp)
  qed (fact 0 1 2 3 4 lv 5 6 7)+
qed

lemma ex_child_pages_root:
  "child_pages ex_env ex_ctx None =
     [\<lparr>id_pk = Some 2, order_f = Some 0, parent_id = None, branch_level = None, menu_helpers = Some []\<rparr>,
      \<lparr>id_pk = Some 1, order_f = Some 1, parent_id = None, branch_level = None, menu_helpers = Some []\<rparr>]"
  by (simp add: child_pages_def ex_env_def ex_ctx_def ex_site_pages_def request_user_def
      request_path_def set_menu_helpers_def)

lemma ex_ctx_root_stored:
  "menu_template_name ex_ctx_root = Some ''pages/menu.html'' \<and>
   stored_list ex_env ex_ctx_root (Some 1) =
     [\<lparr>id_pk = Some 4, order_f = Some 0, parent_id = Some 1, branch_level = None,
        menu_helpers = Some []\<rparr>]"
  by (simp add: stored_list_def ex_ctx_root_def page_menu_def build_menu_pages_def ex_env_def
      ex_ctx_def ex_site_pages_def set_menu_helpers_def dd_append_def dd_get_def Let_def)

text \<open>
  The theorem of C8 at the root call in an empty context, which renders the two
  published top-level pages at level 0, and at the recursive call the menu template
  makes in the context the root call left, with the second of them as the parent: it
  renders the child of that page at level 1.
\<close>

theorem page_menu_branch_witness:
  "given_template [UnicodePart ''pages/menu.html''] = Some ''pages/menu.html'' \<and>
   given_page [UnicodePart ''pages/menu.html''] = None \<and>
   menu_pages ex_ctx = None \<and>
   page_menu ex_env ex_ctx [UnicodePart ''pages/menu.html''] = Inr ex_ctx_root \<and>
   page_branch ex_ctx_root = Some ex_root_branch \<and>
   ctx_branch_level ex_ctx_root = Some 0 \<and>
   given_template [PagePart (hd (tl ex_root_branch))] = None \<and>
   menu_template_name ex_ctx_root = Some ''pages/menu.html'' \<and>
   given_page [PagePart (hd (tl ex_root_branch))] = Some (hd (tl ex_root_branch)) \<and>
   id_pk (hd (tl ex_root_branch)) = Some 1 \<and>
   branch_level (hd (tl ex_root_branch)) = Some 0 \<and>
   (\<exists>ctx'. page_menu ex_env ex_ctx_root [PagePart (hd (tl ex_root_branch))] = Inr ctx' \<and>
      menu_template_name ctx' = Some ''pages/menu.html'' \<and>
      page_branch ctx' = Some ex_child_branch \<and>
      ctx_branch_level ctx' = Some 1)"
proof -
  let ?root = "[UnicodePart ''pages/menu.html'']"
  let ?parent = "hd (tl ex_root_branch)"
  let ?below = "[PagePart ?parent]"
  have t: "given_template ?root = Some ''pages/menu.html''"
    by (simp add: given_template_def given_templates_def last_option_def)
  have p: "given_page ?root = None"
    by (simp add: given_page_def given_pages_def last_option_def)
  have n: "menu_pages ex_ctx = None" by (simp add: ex_ctx_def)
  have h: "given_template ?root \<noteq> None \<or> menu_template_name ex_ctx \<noteq> None"
    using t by simp
  have b: "map (\<lambda>p. p\<lparr>branch_level := Some 0\<rparr>) (child_pages ex_env ex_ctx None) = ex_root_branch"
    by (simp add: ex_child_pages_root ex_root_branch_def)
  from page_menu_branch [OF h, of ex_env] obtain ctx' stored where
    run: "page_menu ex_env ex_ctx ?root = Inr ctx'"
    and get: "\<forall>k. dd_get stored k =
        (if k = menu_key (given_page ?root)
         then map (\<lambda>p. p\<lparr>branch_level := Some (menu_level (given_page ?root))\<rparr>)
                (stored_list ex_env ex_ctx k)
         else stored_list ex_env ex_ctx k)"
    and first: "menu_pages ex_ctx = None \<longrightarrow>
        (\<forall>k. stored_list ex_env ex_ctx k = child_pages ex_env ex_ctx k \<and>
             sorted (map order_f (child_pages ex_env ex_ctx k)) \<and>
             mset (child_pages ex_env ex_ctx k) =
               image_mset (set_menu_helpers (request_path ex_ctx))
                 (filter_mset (\<lambda>p. parent_id p = k \<and> published ex_env (request_user ex_ctx) p)
                    (mset (all_pages ex_env))))"
    and br: "page_branch ctx' = Some (dd_get stored (menu_key (given_page ?root)))"
    and lv: "ctx_branch_level ctx' = Some (menu_level (given_page ?root))"
    and none: "given_page ?root = None \<longrightarrow>
        menu_key (given_page ?root) = None \<and> menu_level (given_page ?root) = 0"
    by (elim exE conjE)
  from none p have k: "menu_key (given_page ?root) = None"
    and l: "menu_level (given_page ?root) = 0" by simp_all
  from run have c: "ex_ctx_root = ctx'" by (simp add: ex_ctx_root_def)
  from first n have "stored_list ex_env ex_ctx None = child_pages ex_env ex_ctx None" by simp
  with get have "dd_get stored None = ex_root_branch"
    by (simp add: k l b)
  with br lv have root: "page_branch ex_ctx_root = Some ex_root_branch"
    "ctx_branch_level ex_ctx_root = Some 0"
    by (simp_all add: k l c)
  have run0: "page_menu ex_env ex_ctx ?root = Inr ex_ctx_root" using run c by simp
  have t': "given_template ?below = None"
    by (simp add: given_template_def given_templates_def last_option_def)
  have p': "given_page ?below = Some ?parent"
    by (simp add: given_page_def given_pages_def last_option_def)
  have i: "id_pk ?parent = Some 1" and bl: "branch_level ?parent = Some 0"
    by (simp_all add: ex_root_branch_def)
  have tn: "menu_template_name ex_ctx_root = Some ''pages/menu.html''"
    using ex_ctx_root_stored by simp
  have h': "given_template ?below \<noteq> None \<or> menu_template_name ex_ctx_root \<noteq> None"
    using tn by simp
  from page_menu_branch [OF h', of ex_env] obtain ctx'' stored' where
    run': "page_menu ex_env ex_ctx_root ?below = Inr ctx''"
    and tn': "menu_template_name ctx'' =
       (case given_template ?below of Some t \<Rightarrow> Some t | None \<Rightarrow> menu_template_name ex_ctx_root)"
    and get': "\<forall>k. dd_get stored' k =
        (if k = menu_key (given_page ?below)
         then map (\<lambda>p. p\<lparr>branch_level := Some (menu_level (given_page ?below))\<rparr>)
                (stored_list ex_env ex_ctx_root k)
         else stored_list ex_env ex_ctx_root k)"
    and br': "page_branch ctx'' = Some (dd_get stored' (menu_key (given_page ?below)))"
    and lv': "ctx_branch_level ctx'' = Some (menu_level (given_page ?below))"
    and some: "\<forall>p. given_page ?below = Some p \<longrightarrow>
        menu_key (given_page ?below) = id_pk p \<and>
        (\<forall>b. branch_level p = Some b \<longrightarrow> menu_level (given_page ?below) = b + 1)"
    by (elim exE conjE)
  from some p' i bl have k': "menu_key (given_page ?below) = Some 1"
    and l': "menu_level (given_page ?below) = 1" by simp_all
  from get' have "dd_get stored' (Some 1) = ex_child_branch"
    by (simp add: k' l' ex_ctx_root_stored [simplified] ex_child_branch_def)
  with br' lv' tn' have below: "menu_template_name ctx'' = Some ''pages/menu.html''"
    "page_branch ctx'' = Some ex_child_branch" "ctx_branch_level ctx'' = Some 1"
    by (simp_all add: k' l' t' tn)
  have "\<exists>ctx'. page_menu ex_env ex_ctx_root ?below = Inr ctx' \<and>
      menu_template_name ctx' = Some ''pages/menu.html'' \<and>
      page_branch ctx' = Some ex_child_branch \<and>
      ctx_branch_level ctx' = Some 1"
    using run' below by (intro exI conjI)
  with t p n run0 root t' tn p' i bl show ?thesis by (intro conjI)
qed

text \<open>
  The root call and a call below it, computed: the second page of the root branch has a child, which
  the recursive call renders at level 1.
\<close>

lemma page_menu_root_example:
  "page_branch ex_ctx_root = Some ex_root_branch \<and>
   menu_template_name ex_ctx_root = Some ''pages/menu.html'' \<and>
   on_home ex_ctx_root = Some False \<and>
   has_children ex_ctx_root (hd (tl ex_root_branch)) \<and>
   \<not> has_children ex_ctx_root (hd ex_root_branch)"
  by (simp add: ex_ctx_root_def page_menu_def build_menu_pages_def ex_env_def ex_ctx_def
      ex_site_pages_def ex_root_branch_def set_menu_helpers_def dd_append_def dd_get_def
      has_children_def Let_def)

lemma page_menu_recursive_example:
  "\<exists>ctx'. page_menu ex_env ex_ctx_root [PagePart (hd (tl ex_root_branch))] = Inr ctx' \<and>
     page_branch ctx' = Some ex_child_branch \<and>
     ctx_branch_level ctx' = Some 1"
  by (simp add: ex_ctx_root_def page_menu_def build_menu_pages_def ex_env_def ex_ctx_def
      ex_site_pages_def ex_root_branch_def ex_child_branch_def set_menu_helpers_def dd_append_def
      dd_get_def Let_def)

text \<open>
  Without a template name in the arguments or the context the tag raises.
\<close>

lemma page_menu_no_template:
  "page_menu ex_env ex_ctx [] = Inl TemplateSyntaxError"
  by (simp add: page_menu_def ex_ctx_def)

end
